theory Spec2Isabelle
  imports Main "HOL-Library.Char_ord" "HOL-Library.List_Lexorder"
begin

section \<open>Data model\<close>

text \<open>
  The persistent state is the relational store behind Prisma: one list of rows per table
  of \<^verbatim>\<open>migration.sql\<close>. Identifiers are UUID strings. A \<^verbatim>\<open>Date\<close> is
  represented by its time value \<^verbatim>\<open>getTime()\<close>, the number of milliseconds since
  the epoch; an invalid date (time value \<^verbatim>\<open>NaN\<close>) is \<open>None\<close> where the code can
  meet one. JavaScript numbers that the validation pipe restricts to integers, and the
  \<^verbatim>\<open>INTEGER\<close> columns, are \<open>int\<close>; the configuration values read from the
  process environment are taken to be integers as well. An \<^verbatim>\<open>INTEGER\<close> column
  holds 32 bits: the store refuses, with the error \<^verbatim>\<open>integer out of range\<close>, an
  update that computes a value outside that range. The one update of the services that
  can compute such a value from values inside the range is the increment of the stock in
  \<^verbatim>\<open>cancel\<close>, and it carries the test; the decrement of \<^verbatim>\<open>create\<close> is
  guarded by the stock being at least the quantity. Columns that no operation below
  reads (creation timestamps, the descriptive columns of members and games) are left out.

  Of the constraints of \<^verbatim>\<open>migration.sql\<close> the services below meet the primary keys
  of \<^verbatim>\<open>bookings\<close> and \<^verbatim>\<open>board_games\<close> and the unique title of a game when they
  insert or rename a row. The check \<^verbatim>\<open>bookings_valid_interval\<close> and the exclusion
  constraint \<^verbatim>\<open>bookings_no_overlap_per_table\<close> are not part of the operations: they
  could only turn a commit into an abort, and what is proved about the overlap check of
  \<^verbatim>\<open>create\<close> is proved of the code of the service alone. The exclusion constraint is
  stated below as a predicate on the store, and follows from the invariant.
\<close>

type_synonym uuid = string
type_synonym instant = int

datatype BookingStatus = PENDING | CONFIRMED | CANCELLED | COMPLETED

datatype UserRole = ADMIN | STAFF | MEMBER

record AuthUser =
  userId :: uuid
  role :: UserRole

record Member =
  m_id :: uuid
  m_userId :: uuid

record TableEntity =
  t_id :: uuid
  t_code :: string
  t_capacity :: int
  t_zone :: string
  t_isActive :: bool

record BoardGame =
  g_id :: uuid
  g_title :: string
  stockTotal :: int
  stockAvailable :: int
  g_isActive :: bool

record Booking =
  b_id :: uuid
  memberId :: uuid
  tableId :: uuid
  startAt :: instant
  endAt :: instant
  peopleCount :: int
  b_notes :: "string option"
  status :: BookingStatus
  createdBy :: uuid

record BookingGame =
  bookingId :: uuid
  boardGameId :: uuid
  quantity :: int

record store =
  tables :: "TableEntity list"
  boardGames :: "BoardGame list"
  bookings :: "Booking list"
  bookingGames :: "BookingGame list"
  members :: "Member list"

text \<open>The rejection reasons are the messages of the HTTP exceptions the services throw.\<close>

datatype reason =
    DateNonValide
  | DurataSlot int
  | FuoriOrario int int
  | NonNelFuturo
  | ProfiloNonConfigurato
  | MemberIdNonCoerente
  | MemberIdObbligatorio
  | IscrittoNonTrovato
  | TavoloNonDisponibile
  | CapienzaSuperata
  | MassimoPrenotazioni int
  | GiochiNonDisponibili
  | DisponibilitaInsufficiente string
  | TavoloGiaPrenotato
  | DisponibilitaVariata
  | PrenotazioneNonTrovata
  | NonPuoiCancellare
  | GiaCancellata
  | CancellazioneFinoA int
  | IntervalloNonValido
  | GiocoNonTrovato
  | StockSuperaTotale
  | ValidationFailed

datatype error =
    BadRequestException reason
  | ConflictException reason
  | ForbiddenException reason
  | NotFoundException reason
  | PrismaError
  | IntegerOutOfRange

text \<open>
  The configuration getters of \<^verbatim>\<open>BookingsService\<close>, and the offset of the host's
  local time zone (local time is UTC plus \<open>tzOffsetMs\<close>), which the \<^verbatim>\<open>Date\<close>
  methods \<^verbatim>\<open>toDateString\<close> and \<^verbatim>\<open>setHours\<close> depend on.
\<close>

record config =
  bookingSlotMinutes :: int
  bookingOpenHour :: int
  bookingCloseHour :: int
  maxFutureActiveBookings :: int
  cancellationHours :: int
  tzOffsetMs :: int

definition defaultConfig :: config where
  "defaultConfig = \<lparr> bookingSlotMinutes = 90, bookingOpenHour = 15, bookingCloseHour = 23,
     maxFutureActiveBookings = 3, cancellationHours = 2, tzOffsetMs = 0 \<rparr>"

section \<open>booking-rules.ts\<close>

definition MINUTES_IN_MS :: int where
  "MINUTES_IN_MS = 60 * 1000"

definition isValidSlotDuration :: "instant \<Rightarrow> instant \<Rightarrow> int \<Rightarrow> bool" where
  "isValidSlotDuration startAt' endAt' slotMinutes =
     (let diff = endAt' - startAt' in diff = slotMinutes * MINUTES_IN_MS)"

text \<open>
  \<open>create\<close> calls the two rules after it has rejected invalid dates, so they are
  functions of time values. Local time is UTC plus a fixed offset (a zone without
  daylight-saving changes, such as the UTC of the container image), and time values stay
  within the range of \<^verbatim>\<open>Date\<close>.
  \<^verbatim>\<open>toDateString\<close> prints the local calendar date; two such strings are equal exactly
  when the local day numbers are, so the day number stands for the string.
  \<^verbatim>\<open>setHours(h, 0, 0, 0)\<close> keeps the local day and replaces the time within the day
  by \<open>h\<close> hours.
\<close>

definition msPerDay :: int where
  "msPerDay = 86400000"

definition msPerHour :: int where
  "msPerHour = 3600000"

definition toDateString :: "int \<Rightarrow> instant \<Rightarrow> int" where
  "toDateString tz t = (t + tz) div msPerDay"

definition setHours :: "int \<Rightarrow> instant \<Rightarrow> int \<Rightarrow> instant" where
  "setHours tz t h = toDateString tz t * msPerDay + h * msPerHour - tz"

definition isWithinOpeningHours :: "int \<Rightarrow> instant \<Rightarrow> instant \<Rightarrow> int \<Rightarrow> int \<Rightarrow> bool" where
  "isWithinOpeningHours tz startAt' endAt' openHour closeHour =
     (if toDateString tz startAt' \<noteq> toDateString tz endAt' then False
      else
        let openAt = setHours tz startAt' openHour;
            closeAt = setHours tz startAt' closeHour
        in startAt' \<ge> openAt \<and> endAt' \<le> closeAt)"

text \<open>The time of day of an instant on the local clock, in milliseconds since local midnight.\<close>

definition timeOfDay :: "int \<Rightarrow> instant \<Rightarrow> int" where
  "timeOfDay tz t = (t + tz) mod msPerDay"

section \<open>The range of an INTEGER column\<close>

definition inInt4 :: "int \<Rightarrow> bool" where
  "inInt4 x = (- 2147483648 \<le> x \<and> x \<le> 2147483647)"

section \<open>The transaction primitive\<close>

text \<open>
  \<^verbatim>\<open>prisma.$transaction(callback)\<close>: the callback runs on the committed state; when
  it throws, the store rolls every write of the callback back and the exception reaches
  the caller; when it returns, its writes are committed. Operations are atomic steps on
  the store: the serializable isolation of the store is what the code relies on for
  concurrent requests, and it is not modelled further.
\<close>

definition transaction :: "(store \<Rightarrow> error + store \<times> 'a) \<Rightarrow> store \<Rightarrow> store \<times> (error + 'a)" where
  "transaction body s =
     (case body s of
        Inl e \<Rightarrow> (s, Inl e)
      | Inr (s', r) \<Rightarrow> (s', Inr r))"

section \<open>bookings.service.ts\<close>

record BookingGameSelectionDto =
  gameId :: uuid
  sel_quantity :: int

text \<open>
  \<open>dto_startAt\<close> and \<open>dto_endAt\<close> hold the time values of
  \<^verbatim>\<open>new Date(dto.startAt)\<close> and \<^verbatim>\<open>new Date(dto.endAt)\<close>, \<open>None\<close> for
  \<^verbatim>\<open>NaN\<close>.
\<close>

record CreateBookingDto =
  dto_memberId :: "uuid option"
  dto_tableId :: uuid
  dto_startAt :: "instant option"
  dto_endAt :: "instant option"
  dto_peopleCount :: int
  dto_notes :: "string option"
  dto_gameSelections :: "BookingGameSelectionDto list option"

text \<open>The numeric constraints that the decorators of the two DTO classes put on a request.\<close>

definition validCreateBookingDto :: "CreateBookingDto \<Rightarrow> bool" where
  "validCreateBookingDto dto =
     (1 \<le> dto_peopleCount dto \<and> dto_peopleCount dto \<le> 20 \<and>
      (case dto_gameSelections dto of
         None \<Rightarrow> True
       | Some selections \<Rightarrow> list_all (\<lambda>selection. 1 \<le> sel_quantity selection) selections))"

text \<open>JavaScript truthiness of an optional string: present and not empty.\<close>

fun truthy :: "string option \<Rightarrow> bool" where
  "truthy None = False"
| "truthy (Some x) = (x \<noteq> [])"

definition resolveMemberId :: "store \<Rightarrow> AuthUser \<Rightarrow> uuid option \<Rightarrow> error + uuid" where
  "resolveMemberId s user requestedMemberId =
     (if role user = MEMBER then
        (case find (\<lambda>m. m_userId m = userId user) (members s) of
           None \<Rightarrow> Inl (ForbiddenException ProfiloNonConfigurato)
         | Some member \<Rightarrow>
             if truthy requestedMemberId \<and> requestedMemberId \<noteq> Some (m_id member)
             then Inl (ForbiddenException MemberIdNonCoerente)
             else Inr (m_id member))
      else if \<not> truthy requestedMemberId then Inl (BadRequestException MemberIdObbligatorio)
      else
        (case find (\<lambda>m. Some (m_id m) = requestedMemberId) (members s) of
           None \<Rightarrow> Inl (NotFoundException IscrittoNonTrovato)
         | Some member \<Rightarrow> Inr (m_id member)))"

text \<open>
  \<^verbatim>\<open>aggregateSelection\<close> is a JavaScript \<^verbatim>\<open>Map\<close>, which iterates in the order
  in which its keys were first inserted: an association list, where \<open>mapSet\<close> replaces
  the value of a present key in place and appends an absent one.
\<close>

fun mapSet :: "(uuid \<times> int) list \<Rightarrow> uuid \<Rightarrow> int \<Rightarrow> (uuid \<times> int) list" where
  "mapSet [] k v = [(k, v)]"
| "mapSet ((k', v') # m) k v = (if k' = k then (k, v) # m else (k', v') # mapSet m k v)"

definition mapGetOr0 :: "(uuid \<times> int) list \<Rightarrow> uuid \<Rightarrow> int" where
  "mapGetOr0 m k = (case map_of m k of None \<Rightarrow> 0 | Some v \<Rightarrow> v)"

definition aggregate :: "BookingGameSelectionDto list \<Rightarrow> (uuid \<times> int) list" where
  "aggregate selections =
     foldl (\<lambda>m selection.
              mapSet m (gameId selection) (mapGetOr0 m (gameId selection) + sel_quantity selection))
           [] selections"

definition checkGames :: "store \<Rightarrow> (uuid \<times> int) list \<Rightarrow> error + unit" where
  "checkGames s aggregateSelection =
     (if length aggregateSelection > 0 then
        (let games = filter (\<lambda>g. g_id g \<in> set (map fst aggregateSelection) \<and> g_isActive g)
                            (boardGames s)
         in if length games \<noteq> length aggregateSelection
            then Inl (BadRequestException GiochiNonDisponibili)
            else
              (case find (\<lambda>game. mapGetOr0 aggregateSelection (g_id game) > stockAvailable game) games of
                 Some game \<Rightarrow> Inl (BadRequestException (DisponibilitaInsufficiente (g_title game)))
               | None \<Rightarrow> Inr ()))
      else Inr ())"

text \<open>The \<^verbatim>\<open>where\<close> clause of the overlap count inside the transaction of \<^verbatim>\<open>create\<close>.\<close>

definition createOverlapWhere :: "uuid \<Rightarrow> instant \<Rightarrow> instant \<Rightarrow> Booking \<Rightarrow> bool" where
  "createOverlapWhere tableId' startAt' endAt' b =
     (tableId b = tableId' \<and> status b \<noteq> CANCELLED \<and> startAt b < endAt' \<and> endAt b > startAt')"

text \<open>
  Everything \<^verbatim>\<open>create\<close> does before it opens the transaction. \<open>now\<close> is the clock
  read by the future-only check and \<open>now'\<close> the clock read by the count of the member's
  active future bookings. The result is what the transaction needs: the member, the two
  dates and the aggregated selection.
\<close>

definition create_checks ::
  "config \<Rightarrow> instant \<Rightarrow> instant \<Rightarrow> store \<Rightarrow> AuthUser \<Rightarrow> CreateBookingDto
   \<Rightarrow> error + (uuid \<times> instant \<times> instant \<times> (uuid \<times> int) list)" where
  "create_checks cfg now now' s user dto =
     (case (dto_startAt dto, dto_endAt dto) of
        (Some startAt', Some endAt') \<Rightarrow>
          if \<not> isValidSlotDuration startAt' endAt' (bookingSlotMinutes cfg)
          then Inl (BadRequestException (DurataSlot (bookingSlotMinutes cfg)))
          else if \<not> isWithinOpeningHours (tzOffsetMs cfg) startAt' endAt'
                       (bookingOpenHour cfg) (bookingCloseHour cfg)
          then Inl (BadRequestException (FuoriOrario (bookingOpenHour cfg) (bookingCloseHour cfg)))
          else if startAt' \<le> now
          then Inl (BadRequestException NonNelFuturo)
          else
            (case resolveMemberId s user (dto_memberId dto) of
               Inl e \<Rightarrow> Inl e
             | Inr memberId' \<Rightarrow>
                 (case find (\<lambda>t. t_id t = dto_tableId dto) (tables s) of
                    None \<Rightarrow> Inl (NotFoundException TavoloNonDisponibile)
                  | Some table \<Rightarrow>
                      if \<not> t_isActive table
                      then Inl (NotFoundException TavoloNonDisponibile)
                      else if dto_peopleCount dto > t_capacity table
                      then Inl (BadRequestException CapienzaSuperata)
                      else
                        (let activeFutureBookings =
                               length (filter (\<lambda>b. memberId b = memberId' \<and> startAt b > now' \<and>
                                                    status b \<in> {PENDING, CONFIRMED})
                                              (bookings s))
                         in if int activeFutureBookings \<ge> maxFutureActiveBookings cfg
                            then Inl (BadRequestException
                                        (MassimoPrenotazioni (maxFutureActiveBookings cfg)))
                            else
                              (let selections = (case dto_gameSelections dto of
                                                   None \<Rightarrow> [] | Some sels \<Rightarrow> sels);
                                   aggregateSelection = aggregate selections
                               in case checkGames s aggregateSelection of
                                    Inl e \<Rightarrow> Inl e
                                  | Inr _ \<Rightarrow>
                                      Inr (memberId', startAt', endAt', aggregateSelection)))))
      | _ \<Rightarrow> Inl (BadRequestException DateNonValide))"

text \<open>
  The loop of the transaction over the aggregated selection: the conditional
  \<^verbatim>\<open>updateMany\<close> (rows with this id and enough stock), the abort when it updated no
  row, and the insertion of the \<^verbatim>\<open>booking_games\<close> row.
\<close>

fun applySelections :: "uuid \<Rightarrow> (uuid \<times> int) list \<Rightarrow> store \<Rightarrow> error + store" where
  "applySelections createdId [] s = Inr s"
| "applySelections createdId ((gameId', quantity') # rest) s =
     (let updatedCount =
            length (filter (\<lambda>g. g_id g = gameId' \<and> stockAvailable g \<ge> quantity') (boardGames s));
          s1 = s\<lparr>boardGames :=
                   map (\<lambda>g. if g_id g = gameId' \<and> stockAvailable g \<ge> quantity'
                             then g\<lparr>stockAvailable := stockAvailable g - quantity'\<rparr> else g)
                       (boardGames s)\<rparr>
      in if updatedCount = 0
         then Inl (ConflictException DisponibilitaVariata)
         else applySelections createdId rest
                (s1\<lparr>bookingGames := bookingGames s1 @
                      [\<lparr>bookingId = createdId, boardGameId = gameId', quantity = quantity'\<rparr>]\<rparr>))"

text \<open>
  The callback of the transaction of \<^verbatim>\<open>create\<close>. The identifier of the new row is
  generated outside the code shown (a UUID default): it is the parameter \<open>newId\<close>, and
  the primary key rejects an identifier already in use.
\<close>

definition create_tx ::
  "AuthUser \<Rightarrow> CreateBookingDto \<Rightarrow> uuid \<Rightarrow> instant \<Rightarrow> instant \<Rightarrow> (uuid \<times> int) list \<Rightarrow> uuid
   \<Rightarrow> store \<Rightarrow> error + store \<times> Booking" where
  "create_tx user dto memberId' startAt' endAt' aggregateSelection newId s =
     (let overlapCount =
            length (filter (createOverlapWhere (dto_tableId dto) startAt' endAt') (bookings s))
      in if overlapCount > 0
         then Inl (ConflictException TavoloGiaPrenotato)
         else if newId \<in> set (map b_id (bookings s))
         then Inl PrismaError
         else
           (let created = \<lparr> b_id = newId, memberId = memberId', tableId = dto_tableId dto,
                             startAt = startAt', endAt = endAt',
                             peopleCount = dto_peopleCount dto, b_notes = dto_notes dto,
                             status = CONFIRMED, createdBy = userId user \<rparr>;
                s1 = s\<lparr>bookings := bookings s @ [created]\<rparr>
            in case applySelections (b_id created) aggregateSelection s1 of
                 Inl e \<Rightarrow> Inl e
               | Inr s2 \<Rightarrow>
                   (case find (\<lambda>b. b_id b = b_id created) (bookings s2) of
                      None \<Rightarrow> Inl PrismaError
                    | Some b \<Rightarrow> Inr (s2, b))))"

text \<open>
  \<^verbatim>\<open>create\<close>: the checks, then the transaction. The audit record and the shaping
  of the response are left out; the result is the committed booking row.
\<close>

definition create ::
  "config \<Rightarrow> instant \<Rightarrow> instant \<Rightarrow> uuid \<Rightarrow> AuthUser \<Rightarrow> CreateBookingDto \<Rightarrow> store
   \<Rightarrow> store \<times> (error + Booking)" where
  "create cfg now now' newId user dto s =
     (case create_checks cfg now now' s user dto of
        Inl e \<Rightarrow> (s, Inl e)
      | Inr (memberId', startAt', endAt', aggregateSelection) \<Rightarrow>
          transaction (create_tx user dto memberId' startAt' endAt' aggregateSelection newId) s)"

text \<open>
  The loop of the transaction of \<^verbatim>\<open>cancel\<close>: \<^verbatim>\<open>boardGame.update\<close> by id
  throws when no row has the id and increments the stock otherwise, with no condition
  in the code. The store refuses the increment when the sum does not fit the 32-bit
  column \<^verbatim>\<open>stock_available\<close>, and the transaction is rolled back.
\<close>

fun restoreStock :: "BookingGame list \<Rightarrow> store \<Rightarrow> error + store" where
  "restoreStock [] s = Inr s"
| "restoreStock (bookedGame # rest) s =
     (if \<not> list_ex (\<lambda>g. g_id g = boardGameId bookedGame) (boardGames s)
      then Inl PrismaError
      else if list_ex (\<lambda>g. g_id g = boardGameId bookedGame \<and>
                            \<not> inInt4 (stockAvailable g + quantity bookedGame)) (boardGames s)
      then Inl IntegerOutOfRange
      else restoreStock rest
             (s\<lparr>boardGames :=
                  map (\<lambda>g. if g_id g = boardGameId bookedGame
                            then g\<lparr>stockAvailable := stockAvailable g + quantity bookedGame\<rparr>
                            else g)
                      (boardGames s)\<rparr>))"

definition cancel_tx :: "Booking \<Rightarrow> BookingGame list \<Rightarrow> store \<Rightarrow> error + store \<times> Booking" where
  "cancel_tx booking held s =
     (case find (\<lambda>b. b_id b = b_id booking) (bookings s) of
        None \<Rightarrow> Inl PrismaError
      | Some row \<Rightarrow>
          (let updated = row\<lparr>status := CANCELLED\<rparr>;
               s1 = s\<lparr>bookings :=
                        map (\<lambda>b. if b_id b = b_id booking then b\<lparr>status := CANCELLED\<rparr> else b)
                            (bookings s)\<rparr>
           in case restoreStock held s1 of
                Inl e \<Rightarrow> Inl e
              | Inr s2 \<Rightarrow> Inr (s2, updated)))"

text \<open>
  \<^verbatim>\<open>cancel\<close>. The booking is read together with its \<^verbatim>\<open>bookingGames\<close> before the
  transaction; the result is the pair of \<^verbatim>\<open>id\<close> and \<^verbatim>\<open>status\<close> of the response.
\<close>

definition cancel ::
  "config \<Rightarrow> instant \<Rightarrow> AuthUser \<Rightarrow> uuid \<Rightarrow> store \<Rightarrow> store \<times> (error + uuid \<times> BookingStatus)" where
  "cancel cfg now user bookingId' s =
     (case find (\<lambda>b. b_id b = bookingId') (bookings s) of
        None \<Rightarrow> (s, Inl (NotFoundException PrenotazioneNonTrovata))
      | Some booking \<Rightarrow>
          if role user = MEMBER \<and>
             find (\<lambda>m. m_id m = memberId booking \<and> m_userId m = userId user) (members s) = None
          then (s, Inl (ForbiddenException NonPuoiCancellare))
          else if status booking = CANCELLED
          then (s, Inl (BadRequestException GiaCancellata))
          else
            (let cancellationDeadline =
                   startAt booking - cancellationHours cfg * 60 * 60 * 1000
             in if now > cancellationDeadline
                then (s, Inl (BadRequestException (CancellazioneFinoA (cancellationHours cfg))))
                else
                  (case transaction
                          (cancel_tx booking
                             (filter (\<lambda>h. bookingId h = b_id booking) (bookingGames s))) s of
                     (s', Inl e) \<Rightarrow> (s', Inl e)
                   | (s', Inr cancelled) \<Rightarrow> (s', Inr (b_id cancelled, status cancelled)))))"

text \<open>
  Two requests can be in \<^verbatim>\<open>cancel\<close> at once. What \<^verbatim>\<open>cancel\<close> reads and checks
  before its transaction (the booking with its hold rows, the ownership, the status, the
  deadline) it reads from the store of that moment; its transaction, which is opened
  with no isolation level and tests nothing, runs on the store that is committed when it
  starts. \<open>cancel_checks\<close> is the first part, and \<open>cancel_raced\<close> is
  \<^verbatim>\<open>cancel\<close> with the first part on the store \<open>s0\<close> and the transaction on
  the store \<open>s1\<close>; with \<open>s1 = s0\<close> it is \<open>cancel\<close>.
\<close>

definition cancel_checks ::
  "config \<Rightarrow> instant \<Rightarrow> AuthUser \<Rightarrow> uuid \<Rightarrow> store \<Rightarrow> error + Booking \<times> BookingGame list" where
  "cancel_checks cfg now user bookingId' s =
     (case find (\<lambda>b. b_id b = bookingId') (bookings s) of
        None \<Rightarrow> Inl (NotFoundException PrenotazioneNonTrovata)
      | Some booking \<Rightarrow>
          if role user = MEMBER \<and>
             find (\<lambda>m. m_id m = memberId booking \<and> m_userId m = userId user) (members s) = None
          then Inl (ForbiddenException NonPuoiCancellare)
          else if status booking = CANCELLED
          then Inl (BadRequestException GiaCancellata)
          else
            (let cancellationDeadline =
                   startAt booking - cancellationHours cfg * 60 * 60 * 1000
             in if now > cancellationDeadline
                then Inl (BadRequestException (CancellazioneFinoA (cancellationHours cfg)))
                else Inr (booking, filter (\<lambda>h. bookingId h = b_id booking) (bookingGames s))))"

definition cancel_raced ::
  "config \<Rightarrow> instant \<Rightarrow> AuthUser \<Rightarrow> uuid \<Rightarrow> store \<Rightarrow> store
   \<Rightarrow> store \<times> (error + uuid \<times> BookingStatus)" where
  "cancel_raced cfg now user bookingId' s0 s1 =
     (case cancel_checks cfg now user bookingId' s0 of
        Inl e \<Rightarrow> (s1, Inl e)
      | Inr (booking, held) \<Rightarrow>
          (case transaction (cancel_tx booking held) s1 of
             (s', Inl e) \<Rightarrow> (s', Inl e)
           | (s', Inr cancelled) \<Rightarrow> (s', Inr (b_id cancelled, status cancelled))))"

section \<open>games.service.ts\<close>

text \<open>
  Of the columns of \<^verbatim>\<open>board_games\<close> the model keeps the identifier, the title, the two
  stock counters and the active flag; the DTO records keep the matching fields. The
  primary key and the unique index on the title reject a clashing row.
\<close>

record CreateGameDto =
  cg_title :: string
  cg_stockTotal :: int
  cg_stockAvailable :: int
  cg_isActive :: "bool option"

record UpdateGameDto =
  ug_title :: "string option"
  ug_stockTotal :: "int option"
  ug_stockAvailable :: "int option"
  ug_isActive :: "bool option"

definition validCreateGameDto :: "CreateGameDto \<Rightarrow> bool" where
  "validCreateGameDto dto = (0 \<le> cg_stockTotal dto \<and> 0 \<le> cg_stockAvailable dto)"

definition validUpdateGameDto :: "UpdateGameDto \<Rightarrow> bool" where
  "validUpdateGameDto dto =
     ((case ug_stockTotal dto of None \<Rightarrow> True | Some n \<Rightarrow> 0 \<le> n) \<and>
      (case ug_stockAvailable dto of None \<Rightarrow> True | Some n \<Rightarrow> 0 \<le> n))"

definition games_create :: "uuid \<Rightarrow> CreateGameDto \<Rightarrow> store \<Rightarrow> store \<times> (error + BoardGame)" where
  "games_create newId dto s =
     (if cg_stockAvailable dto > cg_stockTotal dto
      then (s, Inl (BadRequestException StockSuperaTotale))
      else if newId \<in> set (map g_id (boardGames s)) \<or> cg_title dto \<in> set (map g_title (boardGames s))
      then (s, Inl PrismaError)
      else
        (let game = \<lparr> g_id = newId, g_title = cg_title dto, stockTotal = cg_stockTotal dto,
                       stockAvailable = cg_stockAvailable dto,
                       g_isActive = (case cg_isActive dto of None \<Rightarrow> True | Some a \<Rightarrow> a) \<rparr>
         in (s\<lparr>boardGames := boardGames s @ [game]\<rparr>, Inr game)))"

definition applyUpdateGameDto :: "UpdateGameDto \<Rightarrow> BoardGame \<Rightarrow> BoardGame" where
  "applyUpdateGameDto dto g =
     g\<lparr> g_title := (case ug_title dto of None \<Rightarrow> g_title g | Some v \<Rightarrow> v),
        stockTotal := (case ug_stockTotal dto of None \<Rightarrow> stockTotal g | Some v \<Rightarrow> v),
        stockAvailable := (case ug_stockAvailable dto of None \<Rightarrow> stockAvailable g | Some v \<Rightarrow> v),
        g_isActive := (case ug_isActive dto of None \<Rightarrow> g_isActive g | Some v \<Rightarrow> v) \<rparr>"

definition games_update :: "uuid \<Rightarrow> UpdateGameDto \<Rightarrow> store \<Rightarrow> store \<times> (error + BoardGame)" where
  "games_update id' dto s =
     (case find (\<lambda>g. g_id g = id') (boardGames s) of
        None \<Rightarrow> (s, Inl (NotFoundException GiocoNonTrovato))
      | Some existing \<Rightarrow>
          (let stockTotal' = (case ug_stockTotal dto of None \<Rightarrow> stockTotal existing | Some v \<Rightarrow> v);
               stockAvailable' = (case ug_stockAvailable dto of
                                    None \<Rightarrow> stockAvailable existing | Some v \<Rightarrow> v)
           in if stockAvailable' > stockTotal'
              then (s, Inl (BadRequestException StockSuperaTotale))
              else if list_ex (\<lambda>g. g_id g \<noteq> id' \<and> Some (g_title g) = ug_title dto) (boardGames s)
              then (s, Inl PrismaError)
              else (s\<lparr>boardGames :=
                        map (\<lambda>g. if g_id g = id' then applyUpdateGameDto dto g else g)
                            (boardGames s)\<rparr>,
                    Inr (applyUpdateGameDto dto existing))))"

section \<open>tables.service.ts\<close>

text \<open>
  A field of the availability query is \<open>None\<close> when it is absent or empty, and otherwise
  the time value of \<^verbatim>\<open>new Date\<close> of it (\<open>Some None\<close> for \<^verbatim>\<open>NaN\<close>). The result
  pairs every active table, in the order of the codes, with its \<^verbatim>\<open>available\<close> flag.
\<close>

record TableAvailabilityQueryDto =
  q_startAt :: "instant option option"
  q_endAt :: "instant option option"

text \<open>The \<^verbatim>\<open>where\<close> clause of the lookup of the overlapping bookings.\<close>

definition availabilityOverlapWhere :: "instant \<Rightarrow> instant \<Rightarrow> Booking \<Rightarrow> bool" where
  "availabilityOverlapWhere startAt' endAt' b =
     (status b \<in> {PENDING, CONFIRMED} \<and> startAt b < endAt' \<and> endAt b > startAt')"

definition memberAvailability ::
  "store \<Rightarrow> TableAvailabilityQueryDto \<Rightarrow> error + (TableEntity \<times> bool) list" where
  "memberAvailability s query =
     (let tables' = sort_key t_code (filter t_isActive (tables s))
      in case (q_startAt query, q_endAt query) of
           (Some sa, Some ea) \<Rightarrow>
             (case (sa, ea) of
                (Some startAt', Some endAt') \<Rightarrow>
                  (let overlaps = filter (availabilityOverlapWhere startAt' endAt') (bookings s);
                       busyTableIds = set (map tableId overlaps)
                   in Inr (map (\<lambda>table. (table, t_id table \<notin> busyTableIds)) tables'))
              | _ \<Rightarrow> Inl (BadRequestException IntervalloNonValido))
         | _ \<Rightarrow> Inr (map (\<lambda>table. (table, True)) tables'))"

section \<open>The system as a sequence of operations\<close>

text \<open>
  One request to the API, with the clock readings and the generated identifier it meets.
  The global validation pipe rejects a body that breaks the constraints of its DTO class
  before the service runs.
\<close>

datatype request =
    BookingCreate instant instant uuid AuthUser CreateBookingDto
  | BookingCancel instant AuthUser uuid
  | GameCreate uuid CreateGameDto
  | GameUpdate uuid UpdateGameDto

fun handle :: "config \<Rightarrow> store \<Rightarrow> request \<Rightarrow> store" where
  "handle cfg s (BookingCreate now now' newId user dto) =
     (if validCreateBookingDto dto then fst (create cfg now now' newId user dto s) else s)"
| "handle cfg s (BookingCancel now user bookingId') = fst (cancel cfg now user bookingId' s)"
| "handle cfg s (GameCreate newId dto) =
     (if validCreateGameDto dto then fst (games_create newId dto s) else s)"
| "handle cfg s (GameUpdate id' dto) =
     (if validUpdateGameDto dto then fst (games_update id' dto s) else s)"

definition run :: "config \<Rightarrow> store \<Rightarrow> request list \<Rightarrow> store" where
  "run cfg s requests = foldl (handle cfg) s requests"

section \<open>Invariants of the store\<close>

text \<open>
  No double booking: two different non-cancelled rows of \<^verbatim>\<open>bookings\<close> on the same
  table have disjoint half-open intervals.
\<close>

definition intervalsOverlap :: "Booking \<Rightarrow> Booking \<Rightarrow> bool" where
  "intervalsOverlap b1 b2 = (startAt b1 < endAt b2 \<and> startAt b2 < endAt b1)"

definition noDoubleBooking :: "store \<Rightarrow> bool" where
  "noDoubleBooking s =
     (distinct (map b_id (bookings s)) \<and>
      list_all (\<lambda>b1. list_all (\<lambda>b2.
          b_id b1 = b_id b2 \<or> tableId b1 \<noteq> tableId b2 \<or>
          status b1 = CANCELLED \<or> status b2 = CANCELLED \<or> \<not> intervalsOverlap b1 b2)
        (bookings s)) (bookings s))"

text \<open>
  The exclusion constraint \<^verbatim>\<open>bookings_no_overlap_per_table\<close> of the migration: no
  two different rows with a status other than CANCELLED have the same table and
  overlapping ranges \<^verbatim>\<open>tstzrange(start_at, end_at, '[)')\<close>. Two such ranges overlap
  when both are non-empty and each starts before the other ends.
\<close>

definition rangesOverlap :: "instant \<Rightarrow> instant \<Rightarrow> instant \<Rightarrow> instant \<Rightarrow> bool" where
  "rangesOverlap a1 b1 a2 b2 = (a1 < b1 \<and> a2 < b2 \<and> a1 < b2 \<and> a2 < b1)"

definition bookings_no_overlap_per_table :: "store \<Rightarrow> bool" where
  "bookings_no_overlap_per_table s =
     list_all (\<lambda>b1. list_all (\<lambda>b2.
          b1 = b2 \<or> status b1 = CANCELLED \<or> status b2 = CANCELLED \<or> tableId b1 \<noteq> tableId b2 \<or>
          \<not> rangesOverlap (startAt b1) (endAt b1) (startAt b2) (endAt b2))
        (bookings s)) (bookings s)"

definition stockBound :: "store \<Rightarrow> bool" where
  "stockBound s = list_all (\<lambda>g. 0 \<le> stockAvailable g \<and> stockAvailable g \<le> stockTotal g) (boardGames s)"

text \<open>The primary key of \<^verbatim>\<open>booking_games\<close> and its foreign key into \<^verbatim>\<open>board_games\<close>.\<close>

definition bookingGamesKey :: "store \<Rightarrow> bool" where
  "bookingGamesKey s = distinct (map (\<lambda>h. (bookingId h, boardGameId h)) (bookingGames s))"

definition bookingGamesFk :: "store \<Rightarrow> bool" where
  "bookingGamesFk s =
     list_all (\<lambda>h. list_ex (\<lambda>g. g_id g = boardGameId h) (boardGames s)) (bookingGames s)"

text \<open>The quantity of a game that the hold rows of a booking claim.\<close>

definition heldQuantity :: "store \<Rightarrow> uuid \<Rightarrow> uuid \<Rightarrow> int" where
  "heldQuantity s bookingId' gameId' =
     sum_list (map quantity
       (filter (\<lambda>h. bookingId h = bookingId' \<and> boardGameId h = gameId') (bookingGames s)))"

text \<open>
  The held quantities of a booking can be added back within the range of the stock
  column: every hold row of the booking, added to the available stock of its game, gives
  a 32-bit value.
\<close>

definition restoredStockFits :: "store \<Rightarrow> uuid \<Rightarrow> bool" where
  "restoredStockFits s bookingId' =
     list_all (\<lambda>h. bookingId h \<noteq> bookingId' \<or>
                  list_all (\<lambda>g. g_id g \<noteq> boardGameId h \<or>
                                inInt4 (stockAvailable g + quantity h)) (boardGames s))
              (bookingGames s)"

text \<open>
  What the conditional \<^verbatim>\<open>updateMany\<close> of \<open>create\<close> is to do to one row of
  \<^verbatim>\<open>board_games\<close>, said at once for a whole aggregated selection: the row of a
  selected game loses the selected quantity if it has at least that much available, and
  every other row stays.
\<close>

definition decrementWhereEnough :: "(uuid \<times> int) list \<Rightarrow> BoardGame \<Rightarrow> BoardGame" where
  "decrementWhereEnough aggregateSelection g =
     (case map_of aggregateSelection (g_id g) of
        None \<Rightarrow> g
      | Some q \<Rightarrow> if stockAvailable g \<ge> q then g\<lparr>stockAvailable := stockAvailable g - q\<rparr> else g)"

section \<open>Example data\<close>

text \<open>
  The scenario of the specification: table T1 with capacity 4, slots of 90 minutes,
  opening hours 15:00 to 23:00, one game with a single copy, one member. Instants are
  milliseconds since the epoch; the day after the epoch at 18:00 is \<open>151200000\<close> and at
  19:30 is \<open>156600000\<close>.
\<close>

definition exMember :: Member where
  "exMember = \<lparr> m_id = ''m1'', m_userId = ''u1'' \<rparr>"

definition exUser :: AuthUser where
  "exUser = \<lparr> userId = ''u1'', role = MEMBER \<rparr>"

definition exStaff :: AuthUser where
  "exStaff = \<lparr> userId = ''u9'', role = STAFF \<rparr>"

definition exTable :: TableEntity where
  "exTable = \<lparr> t_id = ''t1'', t_code = ''T1'', t_capacity = 4, t_zone = ''sala'', t_isActive = True \<rparr>"

definition exGame :: BoardGame where
  "exGame = \<lparr> g_id = ''g1'', g_title = ''Catan'', stockTotal = 1, stockAvailable = 1,
               g_isActive = True \<rparr>"

definition exStore :: store where
  "exStore = \<lparr> tables = [exTable], boardGames = [exGame], bookings = [], bookingGames = [],
                members = [exMember] \<rparr>"

definition exDto :: CreateBookingDto where
  "exDto = \<lparr> dto_memberId = None, dto_tableId = ''t1'', dto_startAt = Some 151200000,
              dto_endAt = Some 156600000, dto_peopleCount = 4, dto_notes = None,
              dto_gameSelections = Some [\<lparr> gameId = ''g1'', sel_quantity = 1 \<rparr>] \<rparr>"

text \<open>The booking that \<open>exDto\<close> creates under the identifier \<open>b1\<close>, and its hold row.\<close>

definition exBooking :: Booking where
  "exBooking = \<lparr> b_id = ''b1'', memberId = ''m1'', tableId = ''t1'', startAt = 151200000,
                  endAt = 156600000, peopleCount = 4, b_notes = None, status = CONFIRMED,
                  createdBy = ''u1'' \<rparr>"

definition exHold :: BookingGame where
  "exHold = \<lparr> bookingId = ''b1'', boardGameId = ''g1'', quantity = 1 \<rparr>"

definition exBooked :: store where
  "exBooked = exStore\<lparr> boardGames := [exGame\<lparr>stockAvailable := 0\<rparr>], bookings := [exBooking],
                        bookingGames := [exHold] \<rparr>"

text \<open>A second request for the same table, from 18:30 to 20:00, with no games.\<close>

definition exDto2 :: CreateBookingDto where
  "exDto2 = \<lparr> dto_memberId = None, dto_tableId = ''t1'', dto_startAt = Some 153000000,
               dto_endAt = Some 158400000, dto_peopleCount = 4, dto_notes = None,
               dto_gameSelections = None \<rparr>"

text \<open>The store after the member has cancelled \<open>b1\<close>.\<close>

definition exCancelled :: store where
  "exCancelled = exBooked\<lparr> boardGames := [exGame],
                            bookings := [exBooking\<lparr>status := CANCELLED\<rparr>] \<rparr>"

text \<open>
  A store in which the last copy of a second game is gone, and a selection of one copy of
  each of the two games.
\<close>

definition exGame2 :: BoardGame where
  "exGame2 = \<lparr> g_id = ''g2'', g_title = ''Risiko'', stockTotal = 1, stockAvailable = 0,
                g_isActive = True \<rparr>"

definition exRaced :: store where
  "exRaced = exStore\<lparr> boardGames := [exGame, exGame2] \<rparr>"

definition exSelections :: "BookingGameSelectionDto list" where
  "exSelections = [\<lparr> gameId = ''g1'', sel_quantity = 1 \<rparr>, \<lparr> gameId = ''g2'', sel_quantity = 1 \<rparr>]"

text \<open>A store in which the booking \<open>b1\<close> is COMPLETED, and the query for its window.\<close>

definition exCompleted :: store where
  "exCompleted = exStore\<lparr> bookings := [exBooking\<lparr>status := COMPLETED\<rparr>] \<rparr>"

definition exQuery :: TableAvailabilityQueryDto where
  "exQuery = \<lparr> q_startAt = Some (Some 151200000), q_endAt = Some (Some 156600000) \<rparr>"

text \<open>
  A party of five for the table of four; a store without the member profile; a store in
  which the table has six seats; a store in which the game is no longer there, with the
  hold row gone as well; and an update that shrinks the total stock of a game to zero.
\<close>

definition exDtoFive :: CreateBookingDto where
  "exDtoFive = exDto\<lparr> dto_peopleCount := 5 \<rparr>"

definition exNoProfile :: store where
  "exNoProfile = exStore\<lparr> members := [] \<rparr>"

definition exBigTable :: store where
  "exBigTable = exStore\<lparr> tables := [exTable\<lparr>t_capacity := 6\<rparr>] \<rparr>"

definition exShrink :: UpdateGameDto where
  "exShrink = \<lparr> ug_title = None, ug_stockTotal = Some 0, ug_stockAvailable = None,
                 ug_isActive = None \<rparr>"

definition exOverstock :: store where
  "exOverstock = exCancelled\<lparr> boardGames := [exGame\<lparr>stockTotal := 0\<rparr>] \<rparr>"

text \<open>A third request, for the slot that starts when the first one ends: 19:30 to 21:00.\<close>

definition exDto3 :: CreateBookingDto where
  "exDto3 = \<lparr> dto_memberId = None, dto_tableId = ''t1'', dto_startAt = Some 156600000,
               dto_endAt = Some 162000000, dto_peopleCount = 2, dto_notes = None,
               dto_gameSelections = None \<rparr>"

definition exBooking3 :: Booking where
  "exBooking3 = \<lparr> b_id = ''b3'', memberId = ''m1'', tableId = ''t1'', startAt = 156600000,
                   endAt = 162000000, peopleCount = 2, b_notes = None, status = CONFIRMED,
                   createdBy = ''u1'' \<rparr>"

text \<open>
  The store after a second cancel of \<open>b1\<close> whose transaction ran once more: two copies
  available of one. And, for the range of the stock column: an update that sets both
  stock counters of the game to the largest 32-bit value, and the store it leaves when
  applied while \<open>b1\<close> holds its copy.
\<close>

definition exTwice :: store where
  "exTwice = exCancelled\<lparr> boardGames := [exGame\<lparr>stockAvailable := 2\<rparr>] \<rparr>"

definition exRefill :: UpdateGameDto where
  "exRefill = \<lparr> ug_title = None, ug_stockTotal = Some 2147483647,
                 ug_stockAvailable = Some 2147483647, ug_isActive = None \<rparr>"

definition exFull :: store where
  "exFull = exBooked\<lparr> boardGames :=
              [exGame\<lparr>stockTotal := 2147483647, stockAvailable := 2147483647\<rparr>] \<rparr>"

section \<open>Evaluating the examples\<close>

lemmas example_defs =
  exMember_def exUser_def exStaff_def exTable_def exGame_def exStore_def exDto_def
  exBooking_def exHold_def exBooked_def exDto2_def exCancelled_def exGame2_def exRaced_def exSelections_def
  exCompleted_def exQuery_def exDtoFive_def exNoProfile_def exBigTable_def exShrink_def
  exOverstock_def exDto3_def exBooking3_def exTwice_def exRefill_def exFull_def
  defaultConfig_def

lemmas create_eval =
  create_def create_checks_def isValidSlotDuration_def MINUTES_IN_MS_def
  isWithinOpeningHours_def toDateString_def setHours_def msPerDay_def msPerHour_def
  resolveMemberId_def aggregate_def mapGetOr0_def checkGames_def transaction_def
  create_tx_def createOverlapWhere_def Let_def

text \<open>The first request of the scenario is committed as \<open>b1\<close>, with its hold row.\<close>

lemma create_example:
  "create defaultConfig 0 0 ''b1'' exUser exDto exStore = (exBooked, Inr exBooking)"
  by (simp add: example_defs create_eval)

section \<open>What the two transactions leave untouched\<close>

lemma applySelections_frame:
  "applySelections i agg s = Inr s' \<Longrightarrow>
     bookings s' = bookings s \<and> tables s' = tables s \<and> members s' = members s"
  by (induction i agg s rule: applySelections.induct) (auto simp add: Let_def split: if_splits)

lemma restoreStock_frame:
  "restoreStock held s = Inr s' \<Longrightarrow>
     bookings s' = bookings s \<and> bookingGames s' = bookingGames s \<and>
     tables s' = tables s \<and> members s' = members s"
  by (induction held s rule: restoreStock.induct) (auto split: if_splits)

lemma find_fresh_append:
  "k \<notin> set (map b_id bs) \<Longrightarrow> b_id c = k \<Longrightarrow> find (\<lambda>b. b_id b = k) (bs @ [c]) = Some c"
  by (induction bs) auto

lemma create_tx_success:
  assumes "create_tx user dto m a b agg newId s = Inr (s', bk)"
  shows "bookings s' = bookings s @ [bk] \<and> b_id bk = newId \<and> newId \<notin> set (map b_id (bookings s)) \<and>
         tableId bk = dto_tableId dto \<and> startAt bk = a \<and> endAt bk = b \<and> status bk = CONFIRMED \<and>
         \<not> list_ex (createOverlapWhere (dto_tableId dto) a b) (bookings s)"
  using assms
  by (auto simp add: create_tx_def Let_def find_fresh_append filter_empty_conv list_ex_iff
      split: if_splits sum.splits option.splits dest!: applySelections_frame)

lemma create_error_unchanged:
  "create cfg now now' newId user dto s = (s', Inl e) \<Longrightarrow> s' = s"
  by (auto simp add: create_def transaction_def split: sum.splits prod.splits)

lemma create_success:
  assumes "create cfg now now' newId user dto s = (s', Inr bk)"
  shows "bookings s' = bookings s @ [bk] \<and> b_id bk = newId \<and> newId \<notin> set (map b_id (bookings s)) \<and>
         status bk = CONFIRMED \<and>
         \<not> list_ex (createOverlapWhere (tableId bk) (startAt bk) (endAt bk)) (bookings s)"
proof -
  from assms obtain m a b agg where "create_tx user dto m a b agg newId s = Inr (s', bk)"
    by (auto simp add: create_def transaction_def split: sum.splits prod.splits)
  from create_tx_success [OF this] show ?thesis by simp
qed

section \<open>The booking rules\<close>

text \<open>What the checks of \<open>create\<close> have established about the two dates when they pass.\<close>

lemma create_checks_dates:
  assumes "create_checks cfg now now' s user dto = Inr (m, a, b, agg)"
  shows "dto_startAt dto = Some a \<and> dto_endAt dto = Some b \<and>
         isValidSlotDuration a b (bookingSlotMinutes cfg)"
proof (cases "dto_startAt dto"; cases "dto_endAt dto")
  fix a' b' assume h: "dto_startAt dto = Some a'" "dto_endAt dto = Some b'"
  have v: "isValidSlotDuration a' b' (bookingSlotMinutes cfg)"
  proof (rule ccontr)
    assume "\<not> isValidSlotDuration a' b' (bookingSlotMinutes cfg)"
    with h assms show False by (simp add: create_checks_def)
  qed
  have w: "isWithinOpeningHours (tzOffsetMs cfg) a' b' (bookingOpenHour cfg) (bookingCloseHour cfg)"
  proof (rule ccontr)
    assume "\<not> isWithinOpeningHours (tzOffsetMs cfg) a' b' (bookingOpenHour cfg) (bookingCloseHour cfg)"
    with h v assms show False by (simp add: create_checks_def)
  qed
  have f: "\<not> a' \<le> now"
  proof
    assume "a' \<le> now"
    with h v w assms show False by (simp add: create_checks_def)
  qed
  from h v w f assms have "a = a' \<and> b = b'"
    by (simp add: create_checks_def Let_def split: sum.splits option.splits if_splits)
  with h v show ?thesis by simp
qed (use assms in \<open>simp_all add: create_checks_def\<close>)

text \<open>
  C9 (fixed slot). \<open>isValidSlotDuration\<close> holds exactly when the end is the start plus
  the slot length in minutes, to the millisecond; and \<open>create\<close> rejects a request whose
  two dates are not one slot apart with the slot-duration reason, in every store, at every
  clock reading, for every actor and whatever the rest of the request is. Conversely, a
  booking that \<open>create\<close> returns spans exactly one slot between the two dates of the
  request.
\<close>

theorem C9_fixed_slot_exact:
  "(isValidSlotDuration a b m \<longleftrightarrow> b - a = m * 60000) \<and>
   (dto_startAt dto = Some a \<and> dto_endAt dto = Some b \<and> b - a \<noteq> bookingSlotMinutes cfg * 60000
      \<longrightarrow> create cfg now now' newId user dto s
            = (s, Inl (BadRequestException (DurataSlot (bookingSlotMinutes cfg))))) \<and>
   (snd (create cfg now now' newId user dto s) = Inr bk
      \<longrightarrow> dto_startAt dto = Some (startAt bk) \<and> dto_endAt dto = Some (endAt bk) \<and>
          endAt bk - startAt bk = bookingSlotMinutes cfg * 60000)"
proof (intro conjI impI)
  show "isValidSlotDuration a b m \<longleftrightarrow> b - a = m * 60000"
    by (simp add: isValidSlotDuration_def MINUTES_IN_MS_def)
  assume "dto_startAt dto = Some a \<and> dto_endAt dto = Some b \<and>
          b - a \<noteq> bookingSlotMinutes cfg * 60000"
  then show "create cfg now now' newId user dto s
            = (s, Inl (BadRequestException (DurataSlot (bookingSlotMinutes cfg))))"
    by (simp add: create_def create_checks_def isValidSlotDuration_def MINUTES_IN_MS_def)
next
  assume r: "snd (create cfg now now' newId user dto s) = Inr bk"
  then obtain m' a' b' agg where
    ch: "create_checks cfg now now' s user dto = Inr (m', a', b', agg)"
    and tx: "snd (transaction (create_tx user dto m' a' b' agg newId) s) = Inr bk"
    by (auto simp add: create_def split: sum.splits)
  from create_checks_dates [OF ch]
  have d: "dto_startAt dto = Some a' \<and> dto_endAt dto = Some b' \<and>
      isValidSlotDuration a' b' (bookingSlotMinutes cfg)" .
  from tx obtain s' where "create_tx user dto m' a' b' agg newId s = Inr (s', bk)"
    by (auto simp add: transaction_def split: sum.splits prod.splits)
  from create_tx_success [OF this] have "startAt bk = a' \<and> endAt bk = b'" by simp
  with d show "dto_startAt dto = Some (startAt bk)" and "dto_endAt dto = Some (endAt bk)"
    and "endAt bk - startAt bk = bookingSlotMinutes cfg * 60000"
    by (simp_all add: isValidSlotDuration_def MINUTES_IN_MS_def)
qed

theorem C9_fixed_slot_exact_witness:
  "isValidSlotDuration 151200000 156600000 90 \<and>
   \<not> isValidSlotDuration 151200000 156600001 90 \<and>
   create defaultConfig 0 0 ''b1'' exUser (exDto\<lparr>dto_endAt := Some 156600001\<rparr>) exStore
     = (exStore, Inl (BadRequestException (DurataSlot 90))) \<and>
   snd (create defaultConfig 0 0 ''b1'' exUser exDto exStore) = Inr exBooking \<and>
   endAt exBooking - startAt exBooking = 90 * 60000"
proof -
  have d: "dto_startAt (exDto\<lparr>dto_endAt := Some 156600001\<rparr>) = Some 151200000 \<and>
           dto_endAt (exDto\<lparr>dto_endAt := Some 156600001\<rparr>) = Some 156600001 \<and>
           156600001 - 151200000 \<noteq> bookingSlotMinutes defaultConfig * 60000"
    by (simp add: exDto_def defaultConfig_def)
  have v: "bookingSlotMinutes defaultConfig = 90"
    by (simp add: defaultConfig_def)
  have c: "snd (create defaultConfig 0 0 ''b1'' exUser exDto exStore) = Inr exBooking"
    by (simp add: create_example)
  have 1: "isValidSlotDuration 151200000 156600000 90"
    using C9_fixed_slot_exact [of 151200000 156600000 90, THEN conjunct1] by simp
  have 2: "\<not> isValidSlotDuration 151200000 156600001 90"
    using C9_fixed_slot_exact [of 151200000 156600001 90, THEN conjunct1] by simp
  have 3: "create defaultConfig 0 0 ''b1'' exUser (exDto\<lparr>dto_endAt := Some 156600001\<rparr>) exStore
     = (exStore, Inl (BadRequestException (DurataSlot (bookingSlotMinutes defaultConfig))))"
    using C9_fixed_slot_exact [of 151200000 156600001 90 "exDto\<lparr>dto_endAt := Some 156600001\<rparr>"
      defaultConfig 0 0 "''b1''" exUser exStore, THEN conjunct2, THEN conjunct1] d
    by (rule mp)
  have 4: "dto_startAt exDto = Some (startAt exBooking) \<and> dto_endAt exDto = Some (endAt exBooking) \<and>
      endAt exBooking - startAt exBooking = bookingSlotMinutes defaultConfig * 60000"
    using C9_fixed_slot_exact [of 0 0 0 exDto defaultConfig 0 0 "''b1''" exUser exStore exBooking,
      THEN conjunct2, THEN conjunct2] c
    by (rule mp)
  from 1 2 3 4 c v show ?thesis by simp
qed

text \<open>
  A day is split into its day number and its time of day, which is how the two
  \<^verbatim>\<open>Date\<close> methods of \<open>isWithinOpeningHours\<close> are read below.
\<close>

lemma isWithinOpeningHours_iff:
  "isWithinOpeningHours tz s e oh ch \<longleftrightarrow>
     toDateString tz s = toDateString tz e \<and>
     oh * msPerHour \<le> timeOfDay tz s \<and> timeOfDay tz e \<le> ch * msPerHour"
proof -
  have s: "s + tz = toDateString tz s * msPerDay + timeOfDay tz s"
    by (simp add: toDateString_def timeOfDay_def)
  have e: "e + tz = toDateString tz e * msPerDay + timeOfDay tz e"
    by (simp add: toDateString_def timeOfDay_def)
  show ?thesis
  proof (cases "toDateString tz s = toDateString tz e")
    case False
    then show ?thesis by (simp add: isWithinOpeningHours_def)
  next
    case True
    have "isWithinOpeningHours tz s e oh ch \<longleftrightarrow>
            toDateString tz s * msPerDay + oh * msPerHour \<le> s + tz \<and>
            e + tz \<le> toDateString tz s * msPerDay + ch * msPerHour"
      using True by (auto simp add: isWithinOpeningHours_def setHours_def Let_def)
    also have "\<dots> \<longleftrightarrow> oh * msPerHour \<le> timeOfDay tz s \<and> timeOfDay tz e \<le> ch * msPerHour"
      using s e True by auto
    finally show ?thesis using True by simp
  qed
qed

text \<open>
  For an hour of the day, \<^verbatim>\<open>setHours(h, 0, 0, 0)\<close> is the instant of the same local
  day whose local time is \<open>h\<close>:00.
\<close>

lemma setHours_same_day:
  "0 \<le> h \<Longrightarrow> h < 24 \<Longrightarrow>
   toDateString tz (setHours tz t h) = toDateString tz t \<and>
   timeOfDay tz (setHours tz t h) = h * msPerHour"
  unfolding toDateString_def setHours_def timeOfDay_def msPerDay_def msPerHour_def
  by auto

text \<open>
  C10 (operating window). \<open>isWithinOpeningHours\<close> is false exactly when start and end
  lie on different local calendar days, or the start is strictly before the opening
  instant of its day, or the end is strictly after the closing instant of that day. The
  two instants are \<^verbatim>\<open>setHours\<close> of the start, and, read on the local clock, the
  condition is that the start's time of day is before \<open>openHour\<close>:00 or the end's time of
  day is after \<open>closeHour\<close>:00. A start at the opening instant and an end at the closing
  instant are accepted.
\<close>

theorem C10_operating_window:
  "(\<not> isWithinOpeningHours tz s e oh ch \<longleftrightarrow>
      toDateString tz s \<noteq> toDateString tz e \<or> s < setHours tz s oh \<or> e > setHours tz s ch) \<and>
   (\<not> isWithinOpeningHours tz s e oh ch \<longleftrightarrow>
      toDateString tz s \<noteq> toDateString tz e \<or>
      timeOfDay tz s < oh * msPerHour \<or> timeOfDay tz e > ch * msPerHour) \<and>
   (toDateString tz s = toDateString tz e \<and> s = setHours tz s oh \<and> e = setHours tz s ch
      \<longrightarrow> isWithinOpeningHours tz s e oh ch)"
proof (intro conjI)
  show "\<not> isWithinOpeningHours tz s e oh ch \<longleftrightarrow>
      toDateString tz s \<noteq> toDateString tz e \<or> s < setHours tz s oh \<or> e > setHours tz s ch"
    by (auto simp add: isWithinOpeningHours_def Let_def)
  show "\<not> isWithinOpeningHours tz s e oh ch \<longleftrightarrow>
      toDateString tz s \<noteq> toDateString tz e \<or>
      timeOfDay tz s < oh * msPerHour \<or> timeOfDay tz e > ch * msPerHour"
    by (auto simp add: isWithinOpeningHours_iff)
  show "toDateString tz s = toDateString tz e \<and> s = setHours tz s oh \<and> e = setHours tz s ch
      \<longrightarrow> isWithinOpeningHours tz s e oh ch"
    by (auto simp add: isWithinOpeningHours_def Let_def)
qed

text \<open>
  At 15:00 to 16:30, at 21:30 to 23:00 and from the opening to the closing instant the
  window 15 to 23 accepts; one millisecond earlier at the opening, one millisecond later
  at the closing, and across midnight it rejects.
\<close>

theorem C10_operating_window_witness:
  "isWithinOpeningHours 0 140400000 145800000 15 23 \<and>
   isWithinOpeningHours 0 163800000 169200000 15 23 \<and>
   isWithinOpeningHours 0 140400000 169200000 15 23 \<and>
   \<not> isWithinOpeningHours 0 140399999 145799999 15 23 \<and>
   \<not> isWithinOpeningHours 0 163800001 169200001 15 23 \<and>
   \<not> isWithinOpeningHours 0 169200000 174600000 15 25"
proof -
  have b: "toDateString 0 140400000 = toDateString 0 169200000 \<and>
           140400000 = setHours 0 140400000 15 \<and> 169200000 = setHours 0 140400000 23"
    by (simp add: toDateString_def setHours_def msPerDay_def msPerHour_def)
  have 3: "isWithinOpeningHours 0 140400000 169200000 15 23"
    using C10_operating_window [of 0 140400000 169200000 15 23, THEN conjunct2, THEN conjunct2] b
    by (rule mp)
  from C10_operating_window [of 0 140400000 145800000 15 23]
    C10_operating_window [of 0 163800000 169200000 15 23]
    C10_operating_window [of 0 140399999 145799999 15 23]
    C10_operating_window [of 0 163800001 169200001 15 23]
    C10_operating_window [of 0 169200000 174600000 15 25] 3
  show ?thesis
    by (simp add: toDateString_def setHours_def timeOfDay_def msPerDay_def msPerHour_def)
qed

section \<open>Preservation of the invariant\<close>

lemma noDoubleBooking_append:
  assumes "noDoubleBooking s" and "bookings s' = bookings s @ [bk]"
    and "b_id bk \<notin> set (map b_id (bookings s))"
    and "\<not> list_ex (createOverlapWhere (tableId bk) (startAt bk) (endAt bk)) (bookings s)"
  shows "noDoubleBooking s'"
  using assms
  unfolding noDoubleBooking_def list_all_iff list_ex_iff createOverlapWhere_def intervalsOverlap_def
  by auto

lemma noDoubleBooking_cancelled:
  assumes "noDoubleBooking s"
    and "bookings s' = map (\<lambda>b. if b_id b = k then b\<lparr>status := CANCELLED\<rparr> else b) (bookings s)"
  shows "noDoubleBooking s'"
proof -
  have "b_id \<circ> (\<lambda>b. if b_id b = k then b\<lparr>status := CANCELLED\<rparr> else b) = b_id"
    by (auto simp add: fun_eq_iff)
  then have ids: "map b_id (bookings s') = map b_id (bookings s)"
    using assms(2) by simp
  have d: "distinct (map b_id (bookings s'))"
    using assms(1) ids by (simp add: noDoubleBooking_def)
  have p: "list_all (\<lambda>b1. list_all (\<lambda>b2.
          b_id b1 = b_id b2 \<or> tableId b1 \<noteq> tableId b2 \<or>
          status b1 = CANCELLED \<or> status b2 = CANCELLED \<or> \<not> intervalsOverlap b1 b2)
        (bookings s')) (bookings s')"
    using assms(1) unfolding assms(2) noDoubleBooking_def list_all_iff intervalsOverlap_def
    by auto
  show ?thesis using d p by (simp add: noDoubleBooking_def)
qed

lemma cancel_bookings:
  "bookings (fst (cancel cfg now user k s)) = bookings s \<or>
   bookings (fst (cancel cfg now user k s)) =
     map (\<lambda>b. if b_id b = k then b\<lparr>status := CANCELLED\<rparr> else b) (bookings s)"
  by (auto simp add: cancel_def transaction_def cancel_tx_def Let_def
      split: option.splits sum.splits prod.splits if_splits dest!: restoreStock_frame find_Some_iff[THEN iffD1])


lemma games_create_bookings: "bookings (fst (games_create newId dto s)) = bookings s"
  by (simp add: games_create_def Let_def)

lemma games_update_bookings: "bookings (fst (games_update k dto s)) = bookings s"
  by (simp add: games_update_def Let_def split: option.splits)

lemma noDoubleBooking_cong: "bookings s' = bookings s \<Longrightarrow> noDoubleBooking s \<Longrightarrow> noDoubleBooking s'"
  by (simp add: noDoubleBooking_def)

lemma create_noDoubleBooking:
  assumes "noDoubleBooking s"
  shows "noDoubleBooking (fst (create cfg now now' newId user dto s))"
proof (cases "create cfg now now' newId user dto s")
  case (Pair s' r)
  show ?thesis
  proof (cases r)
    case (Inl e)
    with Pair have "s' = s" by (auto dest: create_error_unchanged)
    with Pair assms show ?thesis by simp
  next
    case (Inr bk)
    with Pair have c: "create cfg now now' newId user dto s = (s', Inr bk)" by simp
    from create_success [OF c] assms have "noDoubleBooking s'"
      by (intro noDoubleBooking_append [of s s' bk]) simp_all
    with Pair show ?thesis by simp
  qed
qed

lemma cancel_noDoubleBooking:
  assumes "noDoubleBooking s"
  shows "noDoubleBooking (fst (cancel cfg now user k s))"
proof -
  from cancel_bookings [of cfg now user k s] show ?thesis
  proof
    assume "bookings (fst (cancel cfg now user k s)) = bookings s"
    then show ?thesis using assms by (rule noDoubleBooking_cong)
  next
    assume "bookings (fst (cancel cfg now user k s)) =
      map (\<lambda>b. if b_id b = k then b\<lparr>status := CANCELLED\<rparr> else b) (bookings s)"
    with assms show ?thesis by (rule noDoubleBooking_cancelled)
  qed
qed

lemma handle_noDoubleBooking:
  assumes "noDoubleBooking s"
  shows "noDoubleBooking (handle cfg s r)"
proof (cases r)
  case (BookingCreate now now' newId user dto)
  then show ?thesis using assms by (simp add: create_noDoubleBooking)
next
  case (BookingCancel now user k)
  then show ?thesis using assms by (simp add: cancel_noDoubleBooking)
next
  case (GameCreate newId dto)
  then show ?thesis
    using assms noDoubleBooking_cong [OF games_create_bookings, of s newId dto] by simp
next
  case (GameUpdate k dto)
  then show ?thesis
    using assms noDoubleBooking_cong [OF games_update_bookings, of s k dto] by simp
qed

lemma run_noDoubleBooking:
  "noDoubleBooking s \<Longrightarrow> noDoubleBooking (run cfg s requests)"
  unfolding run_def
  by (induction requests arbitrary: s) (simp_all add: handle_noDoubleBooking)

lemma noDoubleBooking_exclusion:
  assumes "noDoubleBooking s"
  shows "bookings_no_overlap_per_table s"
  unfolding bookings_no_overlap_per_table_def list_all_iff
proof (intro ballI)
  fix b1 b2
  assume m: "b1 \<in> set (bookings s)" "b2 \<in> set (bookings s)"
  from assms m have "b_id b1 = b_id b2 \<or> tableId b1 \<noteq> tableId b2 \<or>
      status b1 = CANCELLED \<or> status b2 = CANCELLED \<or> \<not> intervalsOverlap b1 b2"
    unfolding noDoubleBooking_def list_all_iff by blast
  moreover have "b_id b1 = b_id b2 \<Longrightarrow> b1 = b2"
    using assms m unfolding noDoubleBooking_def by (auto simp add: distinct_map dest: inj_onD)
  ultimately show "b1 = b2 \<or> status b1 = CANCELLED \<or> status b2 = CANCELLED \<or>
      tableId b1 \<noteq> tableId b2 \<or>
      \<not> rangesOverlap (startAt b1) (endAt b1) (startAt b2) (endAt b2)"
    by (auto simp add: intervalsOverlap_def rangesOverlap_def)
qed

lemma create_tx_conflict:
  "list_ex (createOverlapWhere (dto_tableId dto) a b) (bookings s) \<Longrightarrow>
   transaction (create_tx user dto m a b agg newId) s = (s, Inl (ConflictException TavoloGiaPrenotato))"
  by (auto simp add: transaction_def create_tx_def Let_def filter_empty_conv list_ex_iff)

section \<open>No double booking\<close>

text \<open>
  Three requests in a row on the example store: the first is committed, the second
  overlaps it and is refused, the third starts when the first ends and is committed.
\<close>

lemma run_example:
  "run defaultConfig exStore
      [BookingCreate 0 0 ''b1'' exUser exDto, BookingCreate 0 0 ''b2'' exUser exDto2,
       BookingCreate 0 0 ''b3'' exUser exDto3]
     = exBooked\<lparr>bookings := [exBooking, exBooking3]\<rparr>"
proof -
  have v: "validCreateBookingDto exDto \<and> validCreateBookingDto exDto2 \<and> validCreateBookingDto exDto3"
    by (simp add: example_defs validCreateBookingDto_def)
  have 2: "create defaultConfig 0 0 ''b2'' exUser exDto2 exBooked
             = (exBooked, Inl (ConflictException TavoloGiaPrenotato))"
    by (simp add: example_defs create_eval)
  have 3: "create defaultConfig 0 0 ''b3'' exUser exDto3 exBooked
             = (exBooked\<lparr>bookings := [exBooking, exBooking3]\<rparr>, Inr exBooking3)"
    by (simp add: example_defs create_eval)
  from v create_example 2 3 show ?thesis by (simp add: run_def)
qed

text \<open>
  C1 (no double booking). Every sequence of requests (booking create and cancel, and the
  two game operations) keeps the invariant: the store that has no bookings satisfies it,
  and in a store that satisfies it any two different non-cancelled bookings of one table
  have disjoint half-open intervals, which is also what the exclusion constraint of the
  migration asks. Inside its transaction \<open>create\<close> counts the
  non-cancelled bookings of the requested table that overlap the requested window: when
  there is one, the transaction aborts with the conflict and the store is unchanged; when
  \<open>create\<close> commits a booking, no such booking was in the store.
\<close>

theorem C1_no_double_booking:
  "(noDoubleBooking s \<longrightarrow> noDoubleBooking (run cfg s requests)) \<and>
   (bookings s = [] \<longrightarrow> noDoubleBooking s) \<and>
   (noDoubleBooking s \<longrightarrow> bookings_no_overlap_per_table s) \<and>
   (noDoubleBooking s \<longrightarrow>
      (\<forall>b1 \<in> set (bookings s). \<forall>b2 \<in> set (bookings s).
         b1 \<noteq> b2 \<and> tableId b1 = tableId b2 \<and> status b1 \<noteq> CANCELLED \<and> status b2 \<noteq> CANCELLED
         \<longrightarrow> endAt b1 \<le> startAt b2 \<or> endAt b2 \<le> startAt b1)) \<and>
   (list_ex (createOverlapWhere (dto_tableId dto) a b) (bookings s) \<longrightarrow>
      transaction (create_tx user dto m a b agg newId) s
        = (s, Inl (ConflictException TavoloGiaPrenotato))) \<and>
   (create cfg now now' newId user dto s = (s', Inr bk) \<longrightarrow>
      bookings s' = bookings s @ [bk] \<and>
      \<not> list_ex (createOverlapWhere (tableId bk) (startAt bk) (endAt bk)) (bookings s))"
proof (intro conjI impI)
  assume "noDoubleBooking s"
  then show "noDoubleBooking (run cfg s requests)" by (rule run_noDoubleBooking)
next
  assume "bookings s = []"
  then show "noDoubleBooking s" by (simp add: noDoubleBooking_def)
next
  assume "noDoubleBooking s"
  then show "bookings_no_overlap_per_table s" by (rule noDoubleBooking_exclusion)
next
  assume inv: "noDoubleBooking s"
  show "\<forall>b1 \<in> set (bookings s). \<forall>b2 \<in> set (bookings s).
         b1 \<noteq> b2 \<and> tableId b1 = tableId b2 \<and> status b1 \<noteq> CANCELLED \<and> status b2 \<noteq> CANCELLED
         \<longrightarrow> endAt b1 \<le> startAt b2 \<or> endAt b2 \<le> startAt b1"
  proof (intro ballI impI)
    fix b1 b2
    assume m: "b1 \<in> set (bookings s)" "b2 \<in> set (bookings s)"
      and h: "b1 \<noteq> b2 \<and> tableId b1 = tableId b2 \<and> status b1 \<noteq> CANCELLED \<and> status b2 \<noteq> CANCELLED"
    from inv have d: "distinct (map b_id (bookings s))" by (simp add: noDoubleBooking_def)
    from d m h have "b_id b1 \<noteq> b_id b2"
      by (meson distinct_map inj_onD)
    with inv m h have "\<not> intervalsOverlap b1 b2"
      unfolding noDoubleBooking_def list_all_iff by blast
    then show "endAt b1 \<le> startAt b2 \<or> endAt b2 \<le> startAt b1"
      by (auto simp add: intervalsOverlap_def)
  qed
next
  assume "list_ex (createOverlapWhere (dto_tableId dto) a b) (bookings s)"
  then show "transaction (create_tx user dto m a b agg newId) s
        = (s, Inl (ConflictException TavoloGiaPrenotato))"
    by (rule create_tx_conflict)
next
  assume c: "create cfg now now' newId user dto s = (s', Inr bk)"
  from create_success [OF c] show "bookings s' = bookings s @ [bk]" by simp
  from create_success [OF c]
  show "\<not> list_ex (createOverlapWhere (tableId bk) (startAt bk) (endAt bk)) (bookings s)" by simp
qed


text \<open>
  The scenario: the request for 18:00 to 19:30 on the empty store is committed, the
  request for 18:30 to 20:00 on the same table then meets the conflict, and the request
  for 19:30 to 21:00 is committed next to the first.
\<close>

theorem C1_no_double_booking_witness:
  "noDoubleBooking exStore \<and>
   run defaultConfig exStore
      [BookingCreate 0 0 ''b1'' exUser exDto, BookingCreate 0 0 ''b2'' exUser exDto2,
       BookingCreate 0 0 ''b3'' exUser exDto3]
     = exBooked\<lparr>bookings := [exBooking, exBooking3]\<rparr> \<and>
   noDoubleBooking (exBooked\<lparr>bookings := [exBooking, exBooking3]\<rparr>) \<and>
   bookings_no_overlap_per_table (exBooked\<lparr>bookings := [exBooking, exBooking3]\<rparr>) \<and>
   endAt exBooking \<le> startAt exBooking3 \<and>
   create defaultConfig 0 0 ''b1'' exUser exDto exStore = (exBooked, Inr exBooking) \<and>
   bookings exBooked = bookings exStore @ [exBooking] \<and>
   transaction (create_tx exUser exDto2 ''m1'' 153000000 158400000 [] ''b2'') exBooked
     = (exBooked, Inl (ConflictException TavoloGiaPrenotato))"
proof -
  let ?reqs = "[BookingCreate 0 0 ''b1'' exUser exDto, BookingCreate 0 0 ''b2'' exUser exDto2,
       BookingCreate 0 0 ''b3'' exUser exDto3]"
  let ?two = "exBooked\<lparr>bookings := [exBooking, exBooking3]\<rparr>"
  have h1: "bookings exStore = []"
    by (simp add: exStore_def)
  have h3: "list_ex (createOverlapWhere (dto_tableId exDto2) 153000000 158400000) (bookings exBooked)"
    by (simp add: example_defs createOverlapWhere_def)
  note a = C1_no_double_booking [of exStore defaultConfig ?reqs
        exDto 0 0 exUser "''m1''" "[]" "''b1''" 0 0 exBooked exBooking]
  note b = C1_no_double_booking [of exBooked defaultConfig "[]"
        exDto2 153000000 158400000 exUser "''m1''" "[]" "''b2''" 0 0 exBooked exBooking]
  note c = C1_no_double_booking [of ?two defaultConfig "[]"
        exDto2 153000000 158400000 exUser "''m1''" "[]" "''b2''" 0 0 exBooked exBooking]
  from a h1 have i0: "noDoubleBooking exStore" by blast
  with a have i1: "noDoubleBooking (run defaultConfig exStore ?reqs)" by blast
  then have i2: "noDoubleBooking ?two" by (simp add: run_example)
  with c have i3: "bookings_no_overlap_per_table ?two" by blast
  from c i2 have "\<forall>b1 \<in> set (bookings ?two). \<forall>b2 \<in> set (bookings ?two).
         b1 \<noteq> b2 \<and> tableId b1 = tableId b2 \<and> status b1 \<noteq> CANCELLED \<and> status b2 \<noteq> CANCELLED
         \<longrightarrow> endAt b1 \<le> startAt b2 \<or> endAt b2 \<le> startAt b1" by blast
  then have i4: "endAt exBooking \<le> startAt exBooking3"
    by (simp add: example_defs)
  from a create_example have i5: "bookings exBooked = bookings exStore @ [exBooking]" by blast
  from b h3 have i6: "transaction (create_tx exUser exDto2 ''m1'' 153000000 158400000 [] ''b2'') exBooked
     = (exBooked, Inl (ConflictException TavoloGiaPrenotato))" by blast
  from i0 i2 i3 i4 i5 i6 run_example create_example show ?thesis by simp
qed

section \<open>Cancellation\<close>

lemma restoreStock_boardGames:
  "restoreStock held s = Inr s' \<Longrightarrow>
   boardGames s' =
     map (\<lambda>g. g\<lparr>stockAvailable := stockAvailable g +
                 sum_list (map quantity (filter (\<lambda>h. boardGameId h = g_id g) held))\<rparr>)
         (boardGames s)"
proof (induction held s rule: restoreStock.induct)
  case (1 s)
  then show ?case by (simp add: map_idI)
next
  case (2 bookedGame rest s)
  then show ?case
    by (auto simp add: comp_def split: if_splits intro!: map_cong)
qed

lemma list_ex_g_id: "list_ex (\<lambda>g. g_id g = x) gs \<longleftrightarrow> x \<in> set (map g_id gs)"
  by (auto simp add: list_ex_iff)

lemma map_g_id_increment:
  "map g_id (map (\<lambda>g. if g_id g = i then g\<lparr>stockAvailable := stockAvailable g + q\<rparr> else g) gs)
     = map g_id gs"
  by (induction gs) auto

text \<open>
  The loop of \<open>cancel\<close> ends without an error when the hold rows are of different
  games, each of a game that has a row, and each sum fits the stock column.
\<close>

lemma restoreStock_succeeds:
  assumes "distinct (map boardGameId held)"
    and "list_all (\<lambda>h. list_ex (\<lambda>g. g_id g = boardGameId h) (boardGames s)) held"
    and "list_all (\<lambda>h. list_all (\<lambda>g. g_id g \<noteq> boardGameId h \<or>
                                    inInt4 (stockAvailable g + quantity h)) (boardGames s)) held"
  shows "\<exists>s'. restoreStock held s = Inr s'"
  using assms
proof (induction held arbitrary: s)
  case Nil
  then show ?case by simp
next
  case (Cons h rest)
  let ?f = "\<lambda>g. if g_id g = boardGameId h
                 then g\<lparr>stockAvailable := stockAvailable g + quantity h\<rparr> else g"
  let ?s1 = "s\<lparr>boardGames := map ?f (boardGames s)\<rparr>"
  from Cons.prems have ex: "list_ex (\<lambda>g. g_id g = boardGameId h) (boardGames s)"
    and fit: "\<not> list_ex (\<lambda>g. g_id g = boardGameId h \<and>
                            \<not> inInt4 (stockAvailable g + quantity h)) (boardGames s)"
    by (auto simp add: list_all_iff list_ex_iff)
  from Cons.prems(1) have d: "distinct (map boardGameId rest)"
    and other: "\<forall>h' \<in> set rest. boardGameId h' \<noteq> boardGameId h"
    by (auto simp add: image_iff)
  have fk: "list_all (\<lambda>h'. list_ex (\<lambda>g. g_id g = boardGameId h') (boardGames ?s1)) rest"
    using Cons.prems(2) by (simp add: list_ex_g_id map_g_id_increment del: set_map map_map)
  have fits: "list_all (\<lambda>h'. list_all (\<lambda>g. g_id g \<noteq> boardGameId h' \<or>
                                    inInt4 (stockAvailable g + quantity h')) (boardGames ?s1)) rest"
    unfolding list_all_iff
  proof (intro ballI)
    fix h' g'
    assume h': "h' \<in> set rest" and g': "g' \<in> set (boardGames ?s1)"
    from g' obtain g where g: "g \<in> set (boardGames s)" and e: "g' = ?f g" by auto
    show "g_id g' \<noteq> boardGameId h' \<or> inInt4 (stockAvailable g' + quantity h')"
    proof (cases "g_id g = boardGameId h")
      case True
      with e other h' show ?thesis by auto
    next
      case False
      with e have "g' = g" by simp
      with Cons.prems(3) h' g show ?thesis by (auto simp add: list_all_iff)
    qed
  qed
  from Cons.IH [OF d fk fits] obtain s' where "restoreStock rest ?s1 = Inr s'" ..
  with ex fit show ?case by simp
qed

lemma distinct_games_of_booking:
  "distinct (map (\<lambda>h. (bookingId h, boardGameId h)) hs) \<Longrightarrow>
   distinct (map boardGameId (filter (\<lambda>h. bookingId h = k) hs))"
  by (induction hs) (auto simp add: image_iff)

lemma find_b_id: "find (\<lambda>b. b_id b = k) bs = Some bk \<Longrightarrow> b_id bk = k"
  by (auto simp add: find_Some_iff)

lemma find_cancelled:
  "find (\<lambda>b. b_id b = k) (map (\<lambda>b. if b_id b = k then b\<lparr>status := CANCELLED\<rparr> else b) bs)
     = map_option (\<lambda>b. b\<lparr>status := CANCELLED\<rparr>) (find (\<lambda>b. b_id b = k) bs)"
  by (induction bs) auto

lemma cancel_error_unchanged:
  "cancel cfg now user k s = (s', Inl e) \<Longrightarrow> s' = s"
  by (auto simp add: cancel_def transaction_def Let_def
      split: option.splits if_splits sum.splits prod.splits)

lemma cancel_success:
  assumes "cancel cfg now user k s = (s', Inr r)"
  shows "\<exists>bk. find (\<lambda>b. b_id b = k) (bookings s) = Some bk \<and>
           status bk \<noteq> CANCELLED \<and>
           \<not> now > startAt bk - cancellationHours cfg * 60 * 60 * 1000 \<and>
           \<not> (role user = MEMBER \<and>
              find (\<lambda>m. m_id m = memberId bk \<and> m_userId m = userId user) (members s) = None)"
    and "r = (k, CANCELLED)"
    and "bookings s' = map (\<lambda>b. if b_id b = k then b\<lparr>status := CANCELLED\<rparr> else b) (bookings s)"
    and "bookingGames s' = bookingGames s"
    and "members s' = members s"
    and "tables s' = tables s"
    and "boardGames s' =
           map (\<lambda>g. g\<lparr>stockAvailable := stockAvailable g + heldQuantity s k (g_id g)\<rparr>) (boardGames s)"
proof -
  from assms obtain bk where f: "find (\<lambda>b. b_id b = k) (bookings s) = Some bk"
    by (auto simp add: cancel_def split: option.splits)
  then have k: "b_id bk = k" by (rule find_b_id)
  let ?held = "filter (\<lambda>h. bookingId h = k) (bookingGames s)"
  from assms f k have g: "status bk \<noteq> CANCELLED"
      "\<not> now > startAt bk - cancellationHours cfg * 60 * 60 * 1000"
      "\<not> (role user = MEMBER \<and>
          find (\<lambda>m. m_id m = memberId bk \<and> m_userId m = userId user) (members s) = None)"
    and t: "transaction (cancel_tx bk ?held) s = (s', Inr (bk\<lparr>status := CANCELLED\<rparr>)) \<and> r = (k, CANCELLED)"
    by (auto simp add: cancel_def Let_def transaction_def cancel_tx_def
        split: if_splits sum.splits prod.splits)
  from f g show "\<exists>bk. find (\<lambda>b. b_id b = k) (bookings s) = Some bk \<and>
           status bk \<noteq> CANCELLED \<and>
           \<not> now > startAt bk - cancellationHours cfg * 60 * 60 * 1000 \<and>
           \<not> (role user = MEMBER \<and>
              find (\<lambda>m. m_id m = memberId bk \<and> m_userId m = userId user) (members s) = None)"
    by blast
  from t show "r = (k, CANCELLED)" by simp
  let ?s1 = "s\<lparr>bookings := map (\<lambda>b. if b_id b = k then b\<lparr>status := CANCELLED\<rparr> else b) (bookings s)\<rparr>"
  from t f k have rs: "restoreStock ?held ?s1 = Inr s'"
    by (auto simp add: transaction_def cancel_tx_def Let_def split: sum.splits prod.splits)
  from restoreStock_frame [OF rs]
  show "bookings s' = map (\<lambda>b. if b_id b = k then b\<lparr>status := CANCELLED\<rparr> else b) (bookings s)"
    and "bookingGames s' = bookingGames s" and "members s' = members s" and "tables s' = tables s"
    by simp_all
  from restoreStock_boardGames [OF rs]
  show "boardGames s' =
           map (\<lambda>g. g\<lparr>stockAvailable := stockAvailable g + heldQuantity s k (g_id g)\<rparr>) (boardGames s)"
    by (simp add: heldQuantity_def)
qed

lemma filter_key_singleton:
  "distinct (map f xs) \<Longrightarrow> x \<in> set xs \<Longrightarrow> filter (\<lambda>y. f y = f x) xs = [x]"
proof (induction xs)
  case Nil
  then show ?case by simp
next
  case (Cons a xs)
  show ?case
  proof (cases "a = x")
    case True
    with Cons.prems have "filter (\<lambda>y. f y = f x) xs = []"
      by (auto simp add: filter_empty_conv image_iff)
    with True show ?thesis by simp
  next
    case False
    with Cons.prems have "x \<in> set xs" and "f a \<noteq> f x" by auto
    with Cons show ?thesis by simp
  qed
qed

lemma heldQuantity_single:
  assumes "bookingGamesKey s" and "h \<in> set (bookingGames s)"
  shows "heldQuantity s (bookingId h) (boardGameId h) = quantity h"
proof -
  have "filter (\<lambda>y. bookingId y = bookingId h \<and> boardGameId y = boardGameId h) (bookingGames s)
        = filter (\<lambda>y. (bookingId y, boardGameId y) = (bookingId h, boardGameId h)) (bookingGames s)"
    by simp
  also have "\<dots> = [h]"
    using assms filter_key_singleton [of "\<lambda>h. (bookingId h, boardGameId h)" "bookingGames s" h]
    by (simp add: bookingGamesKey_def)
  finally show ?thesis by (simp add: heldQuantity_def)
qed

lemma cancel_again:
  assumes "cancel cfg now user k s = (s', Inr r)"
  shows "cancel cfg now2 user2 k s' =
           (s', Inl (if role user2 = MEMBER \<and>
                        \<not> list_ex (\<lambda>m. m_id m = memberId (the (find (\<lambda>b. b_id b = k) (bookings s)))
                                     \<and> m_userId m = userId user2) (members s)
                     then ForbiddenException NonPuoiCancellare
                     else BadRequestException GiaCancellata))"
proof -
  from cancel_success(1) [OF assms] obtain bk where f: "find (\<lambda>b. b_id b = k) (bookings s) = Some bk"
    by blast
  have f': "find (\<lambda>b. b_id b = k) (bookings s') = Some (bk\<lparr>status := CANCELLED\<rparr>)"
    using f by (simp add: cancel_success(3) [OF assms] find_cancelled)
  show ?thesis
    using f f' cancel_success(5) [OF assms]
    by (auto simp add: cancel_def find_None_iff list_ex_iff)
qed

lemma cancelled_status:
  "list_all (\<lambda>b. b_id b = k \<longrightarrow> status b = CANCELLED)
     (map (\<lambda>b. if b_id b = k then b\<lparr>status := CANCELLED\<rparr> else b) bs)"
  by (induction bs) auto

lemma cancel_accepted:
  assumes f: "find (\<lambda>b. b_id b = k) (bookings s) = Some bk"
    and a: "role user \<noteq> MEMBER \<or>
            list_ex (\<lambda>m. m_id m = memberId bk \<and> m_userId m = userId user) (members s)"
    and st: "status bk \<noteq> CANCELLED"
    and fk: "bookingGamesFk s"
    and key: "bookingGamesKey s"
    and fits: "restoredStockFits s k"
    and t: "now \<le> startAt bk - cancellationHours cfg * 3600000"
  shows "\<exists>s'. cancel cfg now user k s = (s', Inr (k, CANCELLED))"
proof -
  from f have k: "b_id bk = k" by (rule find_b_id)
  let ?held = "filter (\<lambda>h. bookingId h = k) (bookingGames s)"
  let ?s1 = "s\<lparr>bookings := map (\<lambda>b. if b_id b = k then b\<lparr>status := CANCELLED\<rparr> else b) (bookings s)\<rparr>"
  from key have 1: "distinct (map boardGameId ?held)"
    unfolding bookingGamesKey_def by (rule distinct_games_of_booking)
  from fk have 2: "list_all (\<lambda>h. list_ex (\<lambda>g. g_id g = boardGameId h) (boardGames ?s1)) ?held"
    by (auto simp add: bookingGamesFk_def list_all_iff)
  from fits have 3: "list_all (\<lambda>h. list_all (\<lambda>g. g_id g \<noteq> boardGameId h \<or>
                                    inInt4 (stockAvailable g + quantity h)) (boardGames ?s1)) ?held"
    by (auto simp add: restoredStockFits_def list_all_iff)
  from restoreStock_succeeds [OF 1 2 3] obtain s' where rs: "restoreStock ?held ?s1 = Inr s'" ..
  have "cancel cfg now user k s = (s', Inr (k, CANCELLED))"
    using f k a st t rs
    by (auto simp add: cancel_def Let_def transaction_def cancel_tx_def find_None_iff list_ex_iff)
  then show ?thesis ..
qed

lemma cancel_too_late:
  assumes f: "find (\<lambda>b. b_id b = k) (bookings s) = Some bk"
    and a: "role user \<noteq> MEMBER \<or>
            list_ex (\<lambda>m. m_id m = memberId bk \<and> m_userId m = userId user) (members s)"
    and st: "status bk \<noteq> CANCELLED"
    and t: "now > startAt bk - cancellationHours cfg * 3600000"
  shows "cancel cfg now user k s = (s, Inl (BadRequestException (CancellazioneFinoA (cancellationHours cfg))))"
  using f a st t
  by (auto simp add: cancel_def Let_def find_None_iff list_ex_iff)

text \<open>
  The cancellation of \<open>b1\<close> by its member, evaluated: the status becomes CANCELLED, the
  copy of the game returns to the stock, and the hold row stays.
\<close>

lemma cancel_example:
  "cancel defaultConfig now exUser ''b1'' exBooked =
     (if now > 144000000 then (exBooked, Inl (BadRequestException (CancellazioneFinoA 2)))
      else (exCancelled, Inr (''b1'', CANCELLED)))"
  by (simp add: example_defs cancel_def transaction_def cancel_tx_def inInt4_def Let_def)

text \<open>
  One cancel on its own, and the cancels that start after it has committed. A successful
  cancel answers with the status CANCELLED, sets the status of the booking to CANCELLED,
  and adds to the available stock of every game the quantity that the hold rows of the
  booking claim on it; under the primary key of the hold rows that quantity is, for each
  hold row of the booking, the quantity of that row. A cancel of the same booking that
  starts on the store so committed is an error that leaves the store as it is: for the
  same actor the already-cancelled rejection, for any actor that or the ownership
  rejection.
\<close>

lemma cancel_reverses_stock:
  "cancel cfg now user k s = (s', Inr r) \<longrightarrow>
     r = (k, CANCELLED) \<and>
     bookings s' = map (\<lambda>b. if b_id b = k then b\<lparr>status := CANCELLED\<rparr> else b) (bookings s) \<and>
     boardGames s' =
       map (\<lambda>g. g\<lparr>stockAvailable := stockAvailable g + heldQuantity s k (g_id g)\<rparr>) (boardGames s) \<and>
     (bookingGamesKey s \<longrightarrow>
        (\<forall>h \<in> set (bookingGames s). bookingId h = k \<longrightarrow> heldQuantity s k (boardGameId h) = quantity h)) \<and>
     cancel cfg now2 user k s' = (s', Inl (BadRequestException GiaCancellata)) \<and>
     (cancel cfg now2 user2 k s' = (s', Inl (BadRequestException GiaCancellata)) \<or>
      cancel cfg now2 user2 k s' = (s', Inl (ForbiddenException NonPuoiCancellare)))"
proof
  assume c: "cancel cfg now user k s = (s', Inr r)"
  from cancel_success(1) [OF c] obtain bk where f: "find (\<lambda>b. b_id b = k) (bookings s) = Some bk"
    and a: "\<not> (role user = MEMBER \<and>
              find (\<lambda>m. m_id m = memberId bk \<and> m_userId m = userId user) (members s) = None)"
    by blast
  have again: "cancel cfg now2 user k s' = (s', Inl (BadRequestException GiaCancellata))"
    using cancel_again [OF c, of now2 user] f a
    by (auto simp add: find_None_iff list_ex_iff)
  have any: "cancel cfg now2 user2 k s' = (s', Inl (BadRequestException GiaCancellata)) \<or>
      cancel cfg now2 user2 k s' = (s', Inl (ForbiddenException NonPuoiCancellare))"
    using cancel_again [OF c, of now2 user2] by (simp split: if_splits)
  have held: "bookingGamesKey s \<longrightarrow>
        (\<forall>h \<in> set (bookingGames s). bookingId h = k \<longrightarrow> heldQuantity s k (boardGameId h) = quantity h)"
    using heldQuantity_single [of s] by auto
  from cancel_success(2,3,7) [OF c] again any held
  show "r = (k, CANCELLED) \<and>
     bookings s' = map (\<lambda>b. if b_id b = k then b\<lparr>status := CANCELLED\<rparr> else b) (bookings s) \<and>
     boardGames s' =
       map (\<lambda>g. g\<lparr>stockAvailable := stockAvailable g + heldQuantity s k (g_id g)\<rparr>) (boardGames s) \<and>
     (bookingGamesKey s \<longrightarrow>
        (\<forall>h \<in> set (bookingGames s). bookingId h = k \<longrightarrow> heldQuantity s k (boardGameId h) = quantity h)) \<and>
     cancel cfg now2 user k s' = (s', Inl (BadRequestException GiaCancellata)) \<and>
     (cancel cfg now2 user2 k s' = (s', Inl (BadRequestException GiaCancellata)) \<or>
      cancel cfg now2 user2 k s' = (s', Inl (ForbiddenException NonPuoiCancellare)))"
    by blast
qed

text \<open>With the checks and the transaction on the same store, \<open>cancel_raced\<close> is \<open>cancel\<close>.\<close>

lemma cancel_raced_same:
  "cancel_raced cfg now user k s s = cancel cfg now user k s"
  by (simp add: cancel_raced_def cancel_checks_def cancel_def Let_def split: option.splits)

text \<open>
  C5 (cancellation reverses the holds, once), evaluated on the code. Two requests to
  cancel \<open>b1\<close> arrive together. Each reads the booking as CONFIRMED with its hold row of
  one copy and passes the checks. The first commits: status CANCELLED, stock from 0 to 1.
  The transaction of the second then runs on that store; it tests neither the status nor
  the hold rows again, sets the status once more and adds the copy once more. Both
  requests are answered with CANCELLED, and the stock is 2 of a total of 1: the hold of
  one copy was given back twice. A cancel that starts only after the first has committed
  is rejected as already cancelled.
\<close>

theorem C5_overlapping_cancels_restore_twice:
  "cancel_checks defaultConfig 0 exUser ''b1'' exBooked = Inr (exBooking, [exHold]) \<and>
   quantity exHold = 1 \<and>
   cancel defaultConfig 0 exUser ''b1'' exBooked = (exCancelled, Inr (''b1'', CANCELLED)) \<and>
   cancel_raced defaultConfig 0 exUser ''b1'' exBooked exCancelled
     = (exTwice, Inr (''b1'', CANCELLED)) \<and>
   map stockAvailable (boardGames exBooked) = [0] \<and>
   map stockAvailable (boardGames exCancelled) = [1] \<and>
   map stockAvailable (boardGames exTwice) = [2] \<and>
   map stockTotal (boardGames exTwice) = [1] \<and>
   cancel defaultConfig 0 exUser ''b1'' exCancelled
     = (exCancelled, Inl (BadRequestException GiaCancellata))"
proof -
  have 1: "cancel_checks defaultConfig 0 exUser ''b1'' exBooked = Inr (exBooking, [exHold])"
    by (simp add: example_defs cancel_checks_def)
  have 2: "cancel defaultConfig 0 exUser ''b1'' exBooked = (exCancelled, Inr (''b1'', CANCELLED))"
    by (simp add: cancel_example)
  have 3: "transaction (cancel_tx exBooking [exHold]) exCancelled
             = (exTwice, Inr (exBooking\<lparr>status := CANCELLED\<rparr>))"
    by (simp add: example_defs transaction_def cancel_tx_def inInt4_def)
  have 4: "cancel_raced defaultConfig 0 exUser ''b1'' exBooked exCancelled
     = (exTwice, Inr (''b1'', CANCELLED))"
    using 1 3 by (simp add: cancel_raced_def exBooking_def)
  have 5: "cancel defaultConfig 0 exUser ''b1'' exCancelled
     = (exCancelled, Inl (BadRequestException GiaCancellata))"
    by (simp add: example_defs cancel_def)
  have 6: "quantity exHold = 1 \<and>
      map stockAvailable (boardGames exBooked) = [0] \<and>
      map stockAvailable (boardGames exCancelled) = [1] \<and>
      map stockAvailable (boardGames exTwice) = [2] \<and>
      map stockTotal (boardGames exTwice) = [1]"
    by (simp add: example_defs)
  from 1 2 4 5 6 show ?thesis by simp
qed

text \<open>
  C6, as the code has it. A successful cancel deletes no hold row: the rows of
  \<^verbatim>\<open>booking_games\<close> are the same after it as before, so a cancelled booking keeps
  the hold rows it had. What the transaction of the cancel does, atomically, is to set
  the status of the booking to CANCELLED and to return the held quantities to the stock;
  a cancel that fails changes nothing.
\<close>

theorem C6_holds_kept_on_cancel:
  "(cancel cfg now user k s = (s', Inr r) \<longrightarrow>
      bookingGames s' = bookingGames s \<and>
      list_all (\<lambda>b. b_id b = k \<longrightarrow> status b = CANCELLED) (bookings s') \<and>
      boardGames s' =
        map (\<lambda>g. g\<lparr>stockAvailable := stockAvailable g + heldQuantity s k (g_id g)\<rparr>) (boardGames s)) \<and>
   (cancel cfg now user k s = (s', Inl e) \<longrightarrow> s' = s)"
proof (intro conjI impI)
  assume c: "cancel cfg now user k s = (s', Inr r)"
  from cancel_success(4) [OF c] show "bookingGames s' = bookingGames s" .
  from cancel_success(3) [OF c] show "list_all (\<lambda>b. b_id b = k \<longrightarrow> status b = CANCELLED) (bookings s')"
    by (simp only: cancelled_status)
  from cancel_success(7) [OF c] show "boardGames s' =
        map (\<lambda>g. g\<lparr>stockAvailable := stockAvailable g + heldQuantity s k (g_id g)\<rparr>) (boardGames s)" .
next
  assume "cancel cfg now user k s = (s', Inl e)"
  then show "s' = s" by (rule cancel_error_unchanged)
qed

theorem C6_holds_kept_on_cancel_witness:
  "cancel defaultConfig 0 exUser ''b1'' exBooked = (exCancelled, Inr (''b1'', CANCELLED)) \<and>
   bookingGames exCancelled = bookingGames exBooked \<and>
   map status (bookings exCancelled) = [CANCELLED] \<and>
   map stockAvailable (boardGames exBooked) = [0] \<and>
   map stockAvailable (boardGames exCancelled) = [1] \<and>
   snd (cancel defaultConfig 150000000 exUser ''b1'' exBooked)
     = Inl (BadRequestException (CancellazioneFinoA 2)) \<and>
   fst (cancel defaultConfig 150000000 exUser ''b1'' exBooked) = exBooked"
proof -
  have c: "cancel defaultConfig 0 exUser ''b1'' exBooked = (exCancelled, Inr (''b1'', CANCELLED))"
    by (simp add: cancel_example)
  have e: "snd (cancel defaultConfig 150000000 exUser ''b1'' exBooked)
     = Inl (BadRequestException (CancellazioneFinoA 2))"
    by (simp add: cancel_example)
  then have e': "cancel defaultConfig 150000000 exUser ''b1'' exBooked
     = (fst (cancel defaultConfig 150000000 exUser ''b1'' exBooked),
        Inl (BadRequestException (CancellazioneFinoA 2)))"
    by (simp add: prod_eq_iff)
  have v: "map status (bookings exCancelled) = [CANCELLED] \<and>
           map stockAvailable (boardGames exBooked) = [0] \<and>
           map stockAvailable (boardGames exCancelled) = [1]"
    by (simp add: example_defs)
  from C6_holds_kept_on_cancel [of defaultConfig 0 exUser "''b1''" exBooked exCancelled
        "(''b1'', CANCELLED)" "BadRequestException GiaCancellata"] c
  have 1: "bookingGames exCancelled = bookingGames exBooked" by blast
  from C6_holds_kept_on_cancel [of defaultConfig 150000000 exUser "''b1''" exBooked
        "fst (cancel defaultConfig 150000000 exUser ''b1'' exBooked)"
        "(''b1'', CANCELLED)" "BadRequestException (CancellazioneFinoA 2)"] e'
  have 2: "fst (cancel defaultConfig 150000000 exUser ''b1'' exBooked) = exBooked" by blast
  from c e v 1 2 show ?thesis by simp
qed

text \<open>
  The claim that a cancel deletes the hold rows of the booking fails on the example: the
  cancel succeeds, and the hold row of \<open>b1\<close> is still in the store.
\<close>

theorem C6_holds_deleted_counterexample:
  "snd (cancel defaultConfig 0 exUser ''b1'' exBooked) = Inr (''b1'', CANCELLED) \<and>
   bookingGames (fst (cancel defaultConfig 0 exUser ''b1'' exBooked)) = [exHold] \<and>
   bookingId exHold = ''b1''"
  by (simp add: cancel_example) (simp add: example_defs)

text \<open>
  The cutoff, where the stock can take the held quantities back. For an existing booking
  that is not cancelled and an actor allowed to cancel it (not a member, or the member
  who owns it), in a store whose hold rows refer to existing games and have their primary
  key, and where the held quantities of the booking can be added back within the range of
  the stock column: the cancel is rejected exactly when the clock is strictly after the
  start minus the configured hours, and then with the cutoff reason and no change;
  otherwise, also at the deadline itself, it answers CANCELLED and the booking has that
  status. With a cutoff of two hours a request one hour before the start is rejected and
  a request three hours before the start is accepted.
\<close>

lemma cancel_cutoff_when_stock_fits:
  assumes "find (\<lambda>b. b_id b = k) (bookings s) = Some bk"
    and "role user \<noteq> MEMBER \<or>
         list_ex (\<lambda>m. m_id m = memberId bk \<and> m_userId m = userId user) (members s)"
    and "status bk \<noteq> CANCELLED"
    and "bookingGamesFk s"
    and "bookingGamesKey s"
    and "restoredStockFits s k"
  shows "((\<exists>e. snd (cancel cfg now user k s) = Inl e) \<longleftrightarrow>
            now > startAt bk - cancellationHours cfg * 3600000) \<and>
         (now > startAt bk - cancellationHours cfg * 3600000 \<longrightarrow>
            cancel cfg now user k s
              = (s, Inl (BadRequestException (CancellazioneFinoA (cancellationHours cfg))))) \<and>
         (now \<le> startAt bk - cancellationHours cfg * 3600000 \<longrightarrow>
            snd (cancel cfg now user k s) = Inr (k, CANCELLED) \<and>
            list_all (\<lambda>b. b_id b = k \<longrightarrow> status b = CANCELLED)
              (bookings (fst (cancel cfg now user k s)))) \<and>
         (cancellationHours cfg = 2 \<and> now = startAt bk - 1 * 3600000 \<longrightarrow>
            (\<exists>e. snd (cancel cfg now user k s) = Inl e)) \<and>
         (cancellationHours cfg = 2 \<and> now = startAt bk - 3 * 3600000 \<longrightarrow>
            snd (cancel cfg now user k s) = Inr (k, CANCELLED))"
proof -
  have late: "now > startAt bk - cancellationHours cfg * 3600000 \<Longrightarrow>
      cancel cfg now user k s
        = (s, Inl (BadRequestException (CancellazioneFinoA (cancellationHours cfg))))"
    using assms(1-3) by (rule cancel_too_late)
  have early: "snd (cancel cfg now user k s) = Inr (k, CANCELLED) \<and>
      list_all (\<lambda>b. b_id b = k \<longrightarrow> status b = CANCELLED) (bookings (fst (cancel cfg now user k s)))"
    if t: "now \<le> startAt bk - cancellationHours cfg * 3600000"
  proof -
    from cancel_accepted [OF assms t] obtain s' where c: "cancel cfg now user k s = (s', Inr (k, CANCELLED))" ..
    from cancel_success(3) [OF c] have "list_all (\<lambda>b. b_id b = k \<longrightarrow> status b = CANCELLED) (bookings s')"
      by (simp only: cancelled_status)
    with c show ?thesis by simp
  qed
  show ?thesis
  proof (cases "now > startAt bk - cancellationHours cfg * 3600000")
    case True
    with late show ?thesis by auto
  next
    case False
    then have "now \<le> startAt bk - cancellationHours cfg * 3600000" by simp
    from early [OF this] False show ?thesis by auto
  qed
qed

text \<open>On the example: the deadline of \<open>b1\<close> is 16:00, two hours before its start.\<close>

lemma cancel_cutoff_example:
  "cancel defaultConfig 147600000 exUser ''b1'' exBooked
     = (exBooked, Inl (BadRequestException (CancellazioneFinoA 2))) \<and>
   snd (cancel defaultConfig 140400000 exUser ''b1'' exBooked) = Inr (''b1'', CANCELLED) \<and>
   snd (cancel defaultConfig 144000000 exUser ''b1'' exBooked) = Inr (''b1'', CANCELLED) \<and>
   (\<exists>e. snd (cancel defaultConfig 144000001 exUser ''b1'' exBooked) = Inl e)"
proof -
  have f: "find (\<lambda>b. b_id b = ''b1'') (bookings exBooked) = Some exBooking"
    by (simp add: example_defs)
  have a: "role exUser \<noteq> MEMBER \<or>
         list_ex (\<lambda>m. m_id m = memberId exBooking \<and> m_userId m = userId exUser) (members exBooked)"
    by (simp add: example_defs)
  have st: "status exBooking \<noteq> CANCELLED"
    by (simp add: example_defs)
  have fk: "bookingGamesFk exBooked"
    by (simp add: example_defs bookingGamesFk_def)
  have key: "bookingGamesKey exBooked"
    by (simp add: example_defs bookingGamesKey_def)
  have fits: "restoredStockFits exBooked ''b1''"
    by (simp add: example_defs restoredStockFits_def inInt4_def)
  have v: "cancellationHours defaultConfig = 2 \<and> startAt exBooking = 151200000"
    by (simp add: example_defs)
  from cancel_cutoff_when_stock_fits [OF f a st fk key fits, of defaultConfig 147600000]
    cancel_cutoff_when_stock_fits [OF f a st fk key fits, of defaultConfig 140400000]
    cancel_cutoff_when_stock_fits [OF f a st fk key fits, of defaultConfig 144000000]
    cancel_cutoff_when_stock_fits [OF f a st fk key fits, of defaultConfig 144000001] v
  show ?thesis by simp
qed

text \<open>
  C7 (cancellation cutoff), evaluated on the code. The claim is that a cancel by an
  allowed actor of an existing booking that is not cancelled is rejected exactly when the
  deadline has passed. While \<open>b1\<close> holds its copy, the staff sets both stock counters of
  the game to 2147483647, which the update accepts without a look at the copies that are
  held. The owner then cancels three hours before the start, with a cutoff of two hours:
  the booking exists, is CONFIRMED and the deadline has not passed, yet the increment of
  the stock does not fit the column, the transaction is rolled back, and the cancel ends
  with the error of the store; the booking stays CONFIRMED.
\<close>

theorem C7_timely_cancel_refused_out_of_range:
  "validUpdateGameDto exRefill \<and>
   fst (games_update ''g1'' exRefill exBooked) = exFull \<and>
   bookings exFull = [exBooking] \<and> status exBooking = CONFIRMED \<and>
   memberId exBooking = m_id exMember \<and> m_userId exMember = userId exUser \<and>
   members exFull = [exMember] \<and>
   140400000 = startAt exBooking - 3 * 3600000 \<and> cancellationHours defaultConfig = 2 \<and>
   cancel defaultConfig 140400000 exUser ''b1'' exFull = (exFull, Inl IntegerOutOfRange)"
proof -
  have 1: "validUpdateGameDto exRefill"
    by (simp add: exRefill_def validUpdateGameDto_def)
  have 2: "fst (games_update ''g1'' exRefill exBooked) = exFull"
    by (simp add: example_defs games_update_def applyUpdateGameDto_def)
  have 3: "cancel defaultConfig 140400000 exUser ''b1'' exFull = (exFull, Inl IntegerOutOfRange)"
    by (simp add: example_defs cancel_def transaction_def cancel_tx_def inInt4_def Let_def)
  have 4: "bookings exFull = [exBooking] \<and> status exBooking = CONFIRMED \<and>
      memberId exBooking = m_id exMember \<and> m_userId exMember = userId exUser \<and>
      members exFull = [exMember] \<and>
      140400000 = startAt exBooking - 3 * 3600000 \<and> cancellationHours defaultConfig = 2"
    by (simp add: example_defs)
  from 1 2 3 4 show ?thesis by simp
qed

section \<open>The conditional decrement of the stock\<close>

lemma mapSet_keys: "set (map fst (mapSet m k v)) = insert k (set (map fst m))"
  by (induction m k v rule: mapSet.induct) auto

lemma mapSet_distinct: "distinct (map fst m) \<Longrightarrow> distinct (map fst (mapSet m k v))"
proof (induction m k v rule: mapSet.induct)
  case (1 k v)
  then show ?case by simp
next
  case (2 k' v' m k v)
  then show ?case
    using mapSet_keys [of m k v] by (auto simp del: set_map)
qed

lemma aggregate_distinct_gen:
  "distinct (map fst m) \<Longrightarrow>
   distinct (map fst (foldl (\<lambda>m selection.
              mapSet m (gameId selection) (mapGetOr0 m (gameId selection) + sel_quantity selection))
           m selections))"
  by (induction selections arbitrary: m) (simp_all add: mapSet_distinct)

lemma aggregate_distinct: "distinct (map fst (aggregate selections))"
  unfolding aggregate_def by (rule aggregate_distinct_gen) simp

text \<open>
  A selected game without a row that has enough stock stops the loop: the steps before it
  touch the rows of other games only, the keys of the selection being distinct.
\<close>

lemma applySelections_conflict:
  "distinct (map fst agg) \<Longrightarrow> (g, q) \<in> set agg \<Longrightarrow>
   \<not> list_ex (\<lambda>row. g_id row = g \<and> stockAvailable row \<ge> q) (boardGames s) \<Longrightarrow>
   applySelections i agg s = Inl (ConflictException DisponibilitaVariata)"
proof (induction i agg s rule: applySelections.induct)
  case (1 createdId s)
  then show ?case by simp
next
  case (2 createdId gameId' quantity' rest s)
  let ?n = "length (filter (\<lambda>g. g_id g = gameId' \<and> stockAvailable g \<ge> quantity') (boardGames s))"
  show ?case
  proof (cases "?n = 0")
    case True
    then show ?thesis by (simp add: Let_def)
  next
    case False
    have ne: "gameId' \<noteq> g"
    proof
      assume eq: "gameId' = g"
      with "2.prems"(1,2) have "quantity' = q"
        by (auto simp add: image_iff)
      with eq False "2.prems"(3) show False
        by (auto simp add: list_ex_iff filter_empty_conv)
    qed
    with "2.prems" have mem: "(g, q) \<in> set rest" and d: "distinct (map fst rest)" by auto
    let ?s2 = "s\<lparr>boardGames :=
                   map (\<lambda>g. if g_id g = gameId' \<and> stockAvailable g \<ge> quantity'
                             then g\<lparr>stockAvailable := stockAvailable g - quantity'\<rparr> else g)
                       (boardGames s),
                 bookingGames := bookingGames s @
                      [\<lparr>bookingId = createdId, boardGameId = gameId', quantity = quantity'\<rparr>]\<rparr>"
    have "\<not> list_ex (\<lambda>row. g_id row = g \<and> stockAvailable row \<ge> q) (boardGames ?s2)"
      using "2.prems"(3) ne by (auto simp add: list_ex_iff)
    from "2.IH" [OF refl refl False d mem] this False
    show ?thesis by (simp add: Let_def)
  qed
qed

lemma applySelections_success:
  "distinct (map fst agg) \<Longrightarrow> applySelections i agg s = Inr s' \<Longrightarrow>
   boardGames s' = map (decrementWhereEnough agg) (boardGames s) \<and>
   bookingGames s' = bookingGames s @
      map (\<lambda>(g, q). \<lparr>bookingId = i, boardGameId = g, quantity = q\<rparr>) agg \<and>
   list_all (\<lambda>(g, q). list_ex (\<lambda>row. g_id row = g \<and> stockAvailable row \<ge> q) (boardGames s)) agg"
proof (induction i agg s rule: applySelections.induct)
  case (1 createdId s)
  then show ?case by (simp add: decrementWhereEnough_def map_idI)
next
  case (2 createdId gameId' quantity' rest s)
  let ?f = "\<lambda>g. if g_id g = gameId' \<and> stockAvailable g \<ge> quantity'
                 then g\<lparr>stockAvailable := stockAvailable g - quantity'\<rparr> else g"
  let ?s2 = "s\<lparr>boardGames := map ?f (boardGames s),
               bookingGames := bookingGames s @
                    [\<lparr>bookingId = createdId, boardGameId = gameId', quantity = quantity'\<rparr>]\<rparr>"
  from "2.prems" have n: "length (filter (\<lambda>g. g_id g = gameId' \<and> stockAvailable g \<ge> quantity') (boardGames s)) \<noteq> 0"
    and r: "applySelections createdId rest ?s2 = Inr s'"
    by (auto simp add: Let_def split: if_splits)
  from "2.prems" have d: "distinct (map fst rest)" and fresh: "gameId' \<notin> fst ` set rest" by auto
  from fresh have none: "map_of rest gameId' = None"
    by (simp add: map_of_eq_None_iff)
  from "2.IH" [OF refl refl n d] r
  have g: "boardGames s' = map (decrementWhereEnough rest) (map ?f (boardGames s))"
    and h: "bookingGames s' = (bookingGames s @
                    [\<lparr>bookingId = createdId, boardGameId = gameId', quantity = quantity'\<rparr>]) @
              map (\<lambda>(g, q). \<lparr>bookingId = createdId, boardGameId = g, quantity = q\<rparr>) rest"
    and e: "list_all (\<lambda>(g, q). list_ex (\<lambda>row. g_id row = g \<and> stockAvailable row \<ge> q) (map ?f (boardGames s))) rest"
    by simp_all
  have step: "decrementWhereEnough rest (?f row) = decrementWhereEnough ((gameId', quantity') # rest) row" for row
    using none by (simp add: decrementWhereEnough_def)
  have g': "boardGames s' = map (decrementWhereEnough ((gameId', quantity') # rest)) (boardGames s)"
    unfolding g map_map comp_def step ..
  have e1: "list_ex (\<lambda>row. g_id row = gameId' \<and> stockAvailable row \<ge> quantity') (boardGames s)"
    using n by (auto simp add: list_ex_iff filter_empty_conv)
  have e2: "list_all (\<lambda>(g, q). list_ex (\<lambda>row. g_id row = g \<and> stockAvailable row \<ge> q) (boardGames s)) rest"
    unfolding list_all_iff
  proof (intro ballI)
    fix p assume p: "p \<in> set rest"
    obtain g q where pq: "p = (g, q)" by (cases p)
    with p fresh have ne: "g \<noteq> gameId'" by force
    from e p pq have "list_ex (\<lambda>row. g_id row = g \<and> stockAvailable row \<ge> q) (map ?f (boardGames s))"
      by (auto simp add: list_all_iff)
    with ne have "list_ex (\<lambda>row. g_id row = g \<and> stockAvailable row \<ge> q) (boardGames s)"
      by (auto simp add: list_ex_iff split: if_splits)
    with pq show "case p of (g, q) \<Rightarrow> list_ex (\<lambda>row. g_id row = g \<and> stockAvailable row \<ge> q) (boardGames s)"
      by simp
  qed
  from g' h e1 e2 show ?case by simp
qed

lemma create_tx_stock_conflict:
  assumes "\<not> list_ex (createOverlapWhere (dto_tableId dto) a b) (bookings s)"
    and "newId \<notin> set (map b_id (bookings s))"
    and "distinct (map fst agg)" and "(g, q) \<in> set agg"
    and "\<not> list_ex (\<lambda>row. g_id row = g \<and> stockAvailable row \<ge> q) (boardGames s)"
  shows "create_tx user dto m a b agg newId s = Inl (ConflictException DisponibilitaVariata)"
proof -
  let ?created = "\<lparr> b_id = newId, memberId = m, tableId = dto_tableId dto,
                             startAt = a, endAt = b,
                             peopleCount = dto_peopleCount dto, b_notes = dto_notes dto,
                             status = CONFIRMED, createdBy = userId user \<rparr>"
  let ?s1 = "s\<lparr>bookings := bookings s @ [?created]\<rparr>"
  from assms(5) have "\<not> list_ex (\<lambda>row. g_id row = g \<and> stockAvailable row \<ge> q) (boardGames ?s1)"
    by simp
  from applySelections_conflict [OF assms(3,4) this]
  have "applySelections newId agg ?s1 = Inl (ConflictException DisponibilitaVariata)" .
  with assms(1,2) show ?thesis
    by (simp add: create_tx_def Let_def list_ex_iff filter_empty_conv)
qed

lemma create_tx_stock_success:
  assumes "distinct (map fst agg)"
    and "create_tx user dto m a b agg newId s = Inr (s', bk)"
  shows "boardGames s' = map (decrementWhereEnough agg) (boardGames s) \<and>
         bookingGames s' = bookingGames s @
           map (\<lambda>(g, q). \<lparr>bookingId = newId, boardGameId = g, quantity = q\<rparr>) agg \<and>
         list_all (\<lambda>(g, q). list_ex (\<lambda>row. g_id row = g \<and> stockAvailable row \<ge> q) (boardGames s)) agg"
proof -
  let ?created = "\<lparr> b_id = newId, memberId = m, tableId = dto_tableId dto,
                             startAt = a, endAt = b,
                             peopleCount = dto_peopleCount dto, b_notes = dto_notes dto,
                             status = CONFIRMED, createdBy = userId user \<rparr>"
  let ?s1 = "s\<lparr>bookings := bookings s @ [?created]\<rparr>"
  from assms(2) have "applySelections newId agg ?s1 = Inr s'"
    by (auto simp add: create_tx_def Let_def split: if_splits sum.splits option.splits)
  from applySelections_success [OF assms(1) this] show ?thesis by simp
qed

text \<open>
  C4 (conditional decrement, all or nothing). The transaction of \<open>create\<close> runs on the
  store as it is when the transaction starts, whatever the checks before it have seen.
  If the overlap count is zero and some game of the aggregated selection has no row with
  at least the aggregated quantity available, the transaction ends with the conflict
  \<open>DisponibilitaVariata\<close> and the store is the one before it: no booking row, no hold
  row, no stock changed. If the transaction commits, every selected game had such a row,
  the stock of exactly those rows went down by the aggregated quantity, and one hold row
  per selected game was added. And whenever \<open>create\<close> ends with an error the store is
  unchanged.
\<close>

theorem C4_conditional_decrement:
  "(\<not> list_ex (createOverlapWhere (dto_tableId dto) a b) (bookings s) \<and>
    newId \<notin> set (map b_id (bookings s)) \<and>
    (g, q) \<in> set (aggregate selections) \<and>
    \<not> list_ex (\<lambda>row. g_id row = g \<and> stockAvailable row \<ge> q) (boardGames s)
    \<longrightarrow> transaction (create_tx user dto m a b (aggregate selections) newId) s
          = (s, Inl (ConflictException DisponibilitaVariata))) \<and>
   (transaction (create_tx user dto m a b (aggregate selections) newId) s = (s', Inr bk)
    \<longrightarrow> boardGames s' = map (decrementWhereEnough (aggregate selections)) (boardGames s) \<and>
        bookingGames s' = bookingGames s @
          map (\<lambda>(g, q). \<lparr>bookingId = newId, boardGameId = g, quantity = q\<rparr>) (aggregate selections) \<and>
        list_all (\<lambda>(g, q). list_ex (\<lambda>row. g_id row = g \<and> stockAvailable row \<ge> q) (boardGames s))
          (aggregate selections)) \<and>
   (create cfg now now' newId user dto s = (s'', Inl e) \<longrightarrow> s'' = s)"
proof (intro conjI impI)
  assume h: "\<not> list_ex (createOverlapWhere (dto_tableId dto) a b) (bookings s) \<and>
    newId \<notin> set (map b_id (bookings s)) \<and>
    (g, q) \<in> set (aggregate selections) \<and>
    \<not> list_ex (\<lambda>row. g_id row = g \<and> stockAvailable row \<ge> q) (boardGames s)"
  then have "create_tx user dto m a b (aggregate selections) newId s
      = Inl (ConflictException DisponibilitaVariata)"
    by (intro create_tx_stock_conflict [of dto a b s newId "aggregate selections" g q])
       (simp_all add: aggregate_distinct)
  then show "transaction (create_tx user dto m a b (aggregate selections) newId) s
          = (s, Inl (ConflictException DisponibilitaVariata))"
    by (simp add: transaction_def)
next
  assume "transaction (create_tx user dto m a b (aggregate selections) newId) s = (s', Inr bk)"
  then have t: "create_tx user dto m a b (aggregate selections) newId s = Inr (s', bk)"
    by (auto simp add: transaction_def split: sum.splits prod.splits)
  from create_tx_stock_success [OF aggregate_distinct t]
  show "boardGames s' = map (decrementWhereEnough (aggregate selections)) (boardGames s)"
    and "bookingGames s' = bookingGames s @
          map (\<lambda>(g, q). \<lparr>bookingId = newId, boardGameId = g, quantity = q\<rparr>) (aggregate selections)"
    and "list_all (\<lambda>(g, q). list_ex (\<lambda>row. g_id row = g \<and> stockAvailable row \<ge> q) (boardGames s))
          (aggregate selections)"
    by simp_all
next
  assume "create cfg now now' newId user dto s = (s'', Inl e)"
  then show "s'' = s" by (rule create_error_unchanged)
qed

lemma aggregate_example: "aggregate exSelections = [(''g1'', 1), (''g2'', 1)]"
  by (simp add: exSelections_def aggregate_def mapGetOr0_def)

text \<open>
  With one copy of the first game and none of the second, the selection of both aborts
  after the first decrement and leaves the store as it was; the selection of the first
  game alone commits.
\<close>

theorem C4_conditional_decrement_witness:
  "aggregate exSelections = [(''g1'', 1), (''g2'', 1)] \<and>
   transaction (create_tx exUser exDto ''m1'' 151200000 156600000 (aggregate exSelections) ''b1'')
      exRaced = (exRaced, Inl (ConflictException DisponibilitaVariata)) \<and>
   transaction (create_tx exUser exDto ''m1'' 151200000 156600000
      (aggregate [\<lparr> gameId = ''g1'', sel_quantity = 1 \<rparr>]) ''b1'') exStore = (exBooked, Inr exBooking) \<and>
   map stockAvailable (boardGames exStore) = [1] \<and>
   map stockAvailable (boardGames exBooked) = [0] \<and>
   bookingGames exBooked = [exHold] \<and>
   snd (create defaultConfig 0 0 ''b2'' exUser exDto2 exBooked)
     = Inl (ConflictException TavoloGiaPrenotato) \<and>
   fst (create defaultConfig 0 0 ''b2'' exUser exDto2 exBooked) = exBooked"
proof -
  have h: "\<not> list_ex (createOverlapWhere (dto_tableId exDto) 151200000 156600000) (bookings exRaced) \<and>
    ''b1'' \<notin> set (map b_id (bookings exRaced)) \<and>
    (''g2'', 1) \<in> set (aggregate exSelections) \<and>
    \<not> list_ex (\<lambda>row. g_id row = ''g2'' \<and> stockAvailable row \<ge> 1) (boardGames exRaced)"
    by (simp add: aggregate_example) (simp add: example_defs)
  have t: "transaction (create_tx exUser exDto ''m1'' 151200000 156600000
      (aggregate [\<lparr> gameId = ''g1'', sel_quantity = 1 \<rparr>]) ''b1'') exStore = (exBooked, Inr exBooking)"
    by (simp add: example_defs aggregate_def mapGetOr0_def transaction_def create_tx_def
        createOverlapWhere_def Let_def)
  have v: "map stockAvailable (boardGames exStore) = [1] \<and>
      map stockAvailable (boardGames exBooked) = [0] \<and> bookingGames exBooked = [exHold]"
    by (simp add: example_defs)
  have e: "snd (create defaultConfig 0 0 ''b2'' exUser exDto2 exBooked)
     = Inl (ConflictException TavoloGiaPrenotato)"
    by (simp add: example_defs create_eval)
  then have e': "create defaultConfig 0 0 ''b2'' exUser exDto2 exBooked
     = (fst (create defaultConfig 0 0 ''b2'' exUser exDto2 exBooked),
        Inl (ConflictException TavoloGiaPrenotato))"
    by (simp add: prod_eq_iff)
  from C4_conditional_decrement [of exDto 151200000 156600000 exRaced "''b1''" "''g2''" 1
        exSelections exUser "''m1''" exRaced exBooking defaultConfig 0 0 exRaced
        "ConflictException DisponibilitaVariata"] h
  have 1: "transaction (create_tx exUser exDto ''m1'' 151200000 156600000 (aggregate exSelections) ''b1'')
      exRaced = (exRaced, Inl (ConflictException DisponibilitaVariata))" by blast
  from C4_conditional_decrement [of exDto 151200000 156600000 exStore "''b1''" "''g2''" 1
        "[\<lparr> gameId = ''g1'', sel_quantity = 1 \<rparr>]" exUser "''m1''" exBooked exBooking
        defaultConfig 0 0 exStore "ConflictException DisponibilitaVariata"] t
  have 2: "bookingGames exBooked = bookingGames exStore @
          map (\<lambda>(g, q). \<lparr>bookingId = ''b1'', boardGameId = g, quantity = q\<rparr>)
            (aggregate [\<lparr> gameId = ''g1'', sel_quantity = 1 \<rparr>])" by blast
  from C4_conditional_decrement [where dto = exDto2 and s = exBooked and newId = "''b2''"
        and user = exUser and cfg = defaultConfig and now = 0 and now' = 0
        and s'' = "fst (create defaultConfig 0 0 ''b2'' exUser exDto2 exBooked)"
        and e = "ConflictException TavoloGiaPrenotato"] e'
  have 3: "fst (create defaultConfig 0 0 ''b2'' exUser exDto2 exBooked) = exBooked" by blast
  from 1 2 3 t v e aggregate_example show ?thesis by simp
qed

section \<open>Availability lookup and write path\<close>

lemma busyTableIds_iff:
  "tid \<in> set (map tableId (filter (availabilityOverlapWhere a b) bs)) \<longleftrightarrow>
     list_ex (\<lambda>bk. tableId bk = tid \<and> status bk \<in> {PENDING, CONFIRMED} \<and>
                     startAt bk < b \<and> endAt bk > a) bs"
  by (induction bs) (auto simp add: availabilityOverlapWhere_def)

text \<open>
  C3, as the code has it. For a query with a window, the lookup answers with the active
  tables in the order of their codes, and a table is unavailable exactly when some
  booking of it with status PENDING or CONFIRMED has \<open>startAt < query.end\<close> and
  \<open>endAt > query.start\<close>. On every booking whose status is not COMPLETED the filter of
  the lookup, taken together with the table, is the filter of the overlap count of
  \<open>create\<close>. On a COMPLETED booking the two differ: the lookup never counts it, the
  overlap count of \<open>create\<close> counts it whenever it overlaps the window.
\<close>

theorem C3_availability_and_write_path:
  "(\<exists>r. memberAvailability s \<lparr> q_startAt = Some (Some a), q_endAt = Some (Some b) \<rparr> = Inr r \<and>
        map fst r = sort_key t_code (filter t_isActive (tables s)) \<and>
        list_all (\<lambda>(t, available).
            available \<longleftrightarrow>
              \<not> list_ex (\<lambda>bk. tableId bk = t_id t \<and> status bk \<in> {PENDING, CONFIRMED} \<and>
                              startAt bk < b \<and> endAt bk > a) (bookings s)) r) \<and>
   (status bk \<noteq> COMPLETED \<longrightarrow>
      (tableId bk = tid \<and> availabilityOverlapWhere a b bk \<longleftrightarrow> createOverlapWhere tid a b bk)) \<and>
   (status bk = COMPLETED \<longrightarrow>
      \<not> availabilityOverlapWhere a b bk \<and>
      (createOverlapWhere tid a b bk \<longleftrightarrow> tableId bk = tid \<and> startAt bk < b \<and> endAt bk > a))"
proof (intro conjI)
  show "\<exists>r. memberAvailability s \<lparr> q_startAt = Some (Some a), q_endAt = Some (Some b) \<rparr> = Inr r \<and>
        map fst r = sort_key t_code (filter t_isActive (tables s)) \<and>
        list_all (\<lambda>(t, available).
            available \<longleftrightarrow>
              \<not> list_ex (\<lambda>bk. tableId bk = t_id t \<and> status bk \<in> {PENDING, CONFIRMED} \<and>
                              startAt bk < b \<and> endAt bk > a) (bookings s)) r"
    by (simp add: memberAvailability_def Let_def busyTableIds_iff comp_def list_all_iff
        del: set_map) auto
  show "status bk \<noteq> COMPLETED \<longrightarrow>
      (tableId bk = tid \<and> availabilityOverlapWhere a b bk \<longleftrightarrow> createOverlapWhere tid a b bk)"
    by (cases "status bk") (auto simp add: availabilityOverlapWhere_def createOverlapWhere_def)
  show "status bk = COMPLETED \<longrightarrow>
      \<not> availabilityOverlapWhere a b bk \<and>
      (createOverlapWhere tid a b bk \<longleftrightarrow> tableId bk = tid \<and> startAt bk < b \<and> endAt bk > a)"
    by (auto simp add: availabilityOverlapWhere_def createOverlapWhere_def)
qed

lemma availability_example:
  "memberAvailability exCompleted exQuery = Inr [(exTable, True)]"
  by (simp add: example_defs memberAvailability_def availabilityOverlapWhere_def)

lemma availability_example2:
  "memberAvailability exBooked exQuery = Inr [(exTable, False)]"
  by (simp add: example_defs memberAvailability_def availabilityOverlapWhere_def)

lemma create_on_completed:
  "create defaultConfig 0 0 ''b2'' exUser exDto exCompleted
     = (exCompleted, Inl (ConflictException TavoloGiaPrenotato))"
  by (simp add: example_defs create_eval)

theorem C3_availability_and_write_path_witness:
  "memberAvailability exBooked exQuery = Inr [(exTable, False)] \<and>
   availabilityOverlapWhere 151200000 156600000 exBooking \<and>
   createOverlapWhere ''t1'' 151200000 156600000 exBooking \<and>
   memberAvailability exCompleted exQuery = Inr [(exTable, True)] \<and>
   createOverlapWhere ''t1'' 151200000 156600000 (exBooking\<lparr>status := COMPLETED\<rparr>)"
proof -
  have v: "status exBooking = CONFIRMED \<and> tableId exBooking = ''t1'' \<and>
           startAt exBooking = 151200000 \<and> endAt exBooking = 156600000"
    by (simp add: exBooking_def)
  have q: "exQuery = \<lparr> q_startAt = Some (Some 151200000), q_endAt = Some (Some 156600000) \<rparr>"
    by (simp add: exQuery_def)
  from C3_availability_and_write_path [of exBooked 151200000 156600000 exBooking "''t1''"]
    C3_availability_and_write_path [of exCompleted 151200000 156600000
      "exBooking\<lparr>status := COMPLETED\<rparr>" "''t1''"]
    v availability_example availability_example2
  show ?thesis
    by (simp add: availabilityOverlapWhere_def)
qed

text \<open>
  The claim that the two agree on COMPLETED bookings fails: with a COMPLETED booking of
  the table in the window, the lookup reports the table as available and \<open>create\<close> for
  that window ends with the conflict.
\<close>

theorem C3_completed_counterexample:
  "memberAvailability exCompleted exQuery = Inr [(exTable, True)] \<and>
   create defaultConfig 0 0 ''b2'' exUser exDto exCompleted
     = (exCompleted, Inl (ConflictException TavoloGiaPrenotato)) \<and>
   \<not> availabilityOverlapWhere 151200000 156600000 (exBooking\<lparr>status := COMPLETED\<rparr>) \<and>
   createOverlapWhere ''t1'' 151200000 156600000 (exBooking\<lparr>status := COMPLETED\<rparr>)"
  using availability_example create_on_completed
  by (simp add: availabilityOverlapWhere_def createOverlapWhere_def exBooking_def)

section \<open>The order of the checks of create\<close>

text \<open>
  C8, as the code has it. \<open>create\<close> checks, in this order and stopping at the first
  failure with the reason of that check: the validity of the two dates, the slot
  duration, the opening hours, the start being in the future; then the member (read from
  the store), the table (read from the store; it must exist and be active), the capacity
  of that table, and the quota on the count of the member's active future bookings (read
  from the store). The first four outcomes are the same in every store; the capacity
  check and the quota check come after reads of the store and depend on what is read.
  The reasons of the six checks of the claim are pairwise different.
\<close>

theorem C8_validation_order:
  "(dto_startAt dto = None \<or> dto_endAt dto = None \<longrightarrow>
      (\<forall>s. create cfg now now' newId user dto s = (s, Inl (BadRequestException DateNonValide)))) \<and>
   (dto_startAt dto = Some a \<and> dto_endAt dto = Some b \<longrightarrow>
      (\<not> isValidSlotDuration a b (bookingSlotMinutes cfg) \<longrightarrow>
         (\<forall>s. create cfg now now' newId user dto s
                = (s, Inl (BadRequestException (DurataSlot (bookingSlotMinutes cfg)))))) \<and>
      (isValidSlotDuration a b (bookingSlotMinutes cfg) \<and>
       \<not> isWithinOpeningHours (tzOffsetMs cfg) a b (bookingOpenHour cfg) (bookingCloseHour cfg) \<longrightarrow>
         (\<forall>s. create cfg now now' newId user dto s
                = (s, Inl (BadRequestException
                             (FuoriOrario (bookingOpenHour cfg) (bookingCloseHour cfg)))))) \<and>
      (isValidSlotDuration a b (bookingSlotMinutes cfg) \<and>
       isWithinOpeningHours (tzOffsetMs cfg) a b (bookingOpenHour cfg) (bookingCloseHour cfg) \<and>
       a \<le> now \<longrightarrow>
         (\<forall>s. create cfg now now' newId user dto s = (s, Inl (BadRequestException NonNelFuturo)))) \<and>
      (isValidSlotDuration a b (bookingSlotMinutes cfg) \<and>
       isWithinOpeningHours (tzOffsetMs cfg) a b (bookingOpenHour cfg) (bookingCloseHour cfg) \<and>
       now < a \<longrightarrow>
         (resolveMemberId s user (dto_memberId dto) = Inl e \<longrightarrow>
            create cfg now now' newId user dto s = (s, Inl e)) \<and>
         (resolveMemberId s user (dto_memberId dto) = Inr mid \<longrightarrow>
            (find (\<lambda>t. t_id t = dto_tableId dto) (tables s) = None \<longrightarrow>
               create cfg now now' newId user dto s
                 = (s, Inl (NotFoundException TavoloNonDisponibile))) \<and>
            (find (\<lambda>t. t_id t = dto_tableId dto) (tables s) = Some tbl \<longrightarrow>
               (\<not> t_isActive tbl \<longrightarrow>
                  create cfg now now' newId user dto s
                    = (s, Inl (NotFoundException TavoloNonDisponibile))) \<and>
               (t_isActive tbl \<and> dto_peopleCount dto > t_capacity tbl \<longrightarrow>
                  create cfg now now' newId user dto s
                    = (s, Inl (BadRequestException CapienzaSuperata))) \<and>
               (t_isActive tbl \<and> dto_peopleCount dto \<le> t_capacity tbl \<and>
                int (length (filter (\<lambda>bk. memberId bk = mid \<and> startAt bk > now' \<and>
                                          status bk \<in> {PENDING, CONFIRMED}) (bookings s)))
                  \<ge> maxFutureActiveBookings cfg \<longrightarrow>
                  create cfg now now' newId user dto s
                    = (s, Inl (BadRequestException
                                 (MassimoPrenotazioni (maxFutureActiveBookings cfg))))))))) \<and>
   distinct [DateNonValide, DurataSlot (bookingSlotMinutes cfg),
             FuoriOrario (bookingOpenHour cfg) (bookingCloseHour cfg), NonNelFuturo,
             CapienzaSuperata, MassimoPrenotazioni (maxFutureActiveBookings cfg)]"
proof (cases "dto_startAt dto"; cases "dto_endAt dto")
qed (simp_all add: create_def create_checks_def)

lemma five_on_four:
  "create defaultConfig 0 0 ''b1'' exUser exDtoFive exStore
     = (exStore, Inl (BadRequestException CapienzaSuperata))"
  by (simp add: example_defs create_eval)

lemma five_no_profile:
  "create defaultConfig 0 0 ''b1'' exUser exDtoFive exNoProfile
     = (exNoProfile, Inl (ForbiddenException ProfiloNonConfigurato))"
  by (simp add: example_defs create_eval)

lemma five_on_six:
  "snd (create defaultConfig 0 0 ''b1'' exUser exDtoFive exBigTable)
     = Inr (exBooking\<lparr>peopleCount := 5\<rparr>)"
  by (simp add: example_defs create_eval)

theorem C8_validation_order_witness:
  "create defaultConfig 0 0 ''b1'' exUser (exDtoFive\<lparr>dto_endAt := None\<rparr>) exNoProfile
     = (exNoProfile, Inl (BadRequestException DateNonValide)) \<and>
   create defaultConfig 0 0 ''b1'' exUser (exDtoFive\<lparr>dto_endAt := Some 156600001\<rparr>) exNoProfile
     = (exNoProfile, Inl (BadRequestException (DurataSlot 90))) \<and>
   create (defaultConfig\<lparr>bookingOpenHour := 19\<rparr>) 0 0 ''b1'' exUser exDtoFive exNoProfile
     = (exNoProfile, Inl (BadRequestException (FuoriOrario 19 23))) \<and>
   create defaultConfig 151200000 0 ''b1'' exUser exDtoFive exNoProfile
     = (exNoProfile, Inl (BadRequestException NonNelFuturo)) \<and>
   create defaultConfig 0 0 ''b1'' exUser exDtoFive exNoProfile
     = (exNoProfile, Inl (ForbiddenException ProfiloNonConfigurato)) \<and>
   create defaultConfig 0 0 ''b1'' exUser exDtoFive (exStore\<lparr>tables := []\<rparr>)
     = (exStore\<lparr>tables := []\<rparr>, Inl (NotFoundException TavoloNonDisponibile)) \<and>
   create defaultConfig 0 0 ''b1'' exUser exDtoFive
       (exStore\<lparr>tables := [exTable\<lparr>t_isActive := False\<rparr>]\<rparr>)
     = (exStore\<lparr>tables := [exTable\<lparr>t_isActive := False\<rparr>]\<rparr>,
        Inl (NotFoundException TavoloNonDisponibile)) \<and>
   create defaultConfig 0 0 ''b1'' exUser exDtoFive exStore
     = (exStore, Inl (BadRequestException CapienzaSuperata)) \<and>
   create (defaultConfig\<lparr>maxFutureActiveBookings := 1\<rparr>) 0 0 ''b3'' exUser exDto3 exBooked
     = (exBooked, Inl (BadRequestException (MassimoPrenotazioni 1)))"
proof -
  let ?inactive = "exStore\<lparr>tables := [exTable\<lparr>t_isActive := False\<rparr>]\<rparr>"
  have d: "dto_startAt exDtoFive = Some 151200000 \<and> dto_endAt exDtoFive = Some 156600000 \<and>
           dto_peopleCount exDtoFive = 5 \<and> dto_memberId exDtoFive = None \<and>
           dto_tableId exDtoFive = ''t1''"
    by (simp add: example_defs)
  have d1: "dto_endAt (exDtoFive\<lparr>dto_endAt := None\<rparr>) = None"
    by simp
  have d2: "dto_startAt (exDtoFive\<lparr>dto_endAt := Some 156600001\<rparr>) = Some 151200000 \<and>
            dto_endAt (exDtoFive\<lparr>dto_endAt := Some 156600001\<rparr>) = Some 156600001"
    by (simp add: example_defs)
  have d3: "dto_startAt exDto3 = Some 156600000 \<and> dto_endAt exDto3 = Some 162000000 \<and>
           dto_peopleCount exDto3 = 2 \<and> dto_memberId exDto3 = None \<and> dto_tableId exDto3 = ''t1''"
    by (simp add: example_defs)
  have r: "isValidSlotDuration 151200000 156600000 90 \<and>
           \<not> isValidSlotDuration 151200000 156600001 90 \<and>
           isValidSlotDuration 156600000 162000000 90 \<and>
           isWithinOpeningHours 0 151200000 156600000 15 23 \<and>
           \<not> isWithinOpeningHours 0 151200000 156600000 19 23 \<and>
           isWithinOpeningHours 0 156600000 162000000 15 23"
    by (simp add: isValidSlotDuration_def MINUTES_IN_MS_def
        isWithinOpeningHours_def toDateString_def setHours_def msPerDay_def msPerHour_def)
  have c: "bookingSlotMinutes defaultConfig = 90 \<and> tzOffsetMs defaultConfig = 0 \<and>
           bookingOpenHour defaultConfig = 15 \<and> bookingCloseHour defaultConfig = 23 \<and>
           maxFutureActiveBookings defaultConfig = 3"
    by (simp add: defaultConfig_def)
  have m: "resolveMemberId exNoProfile exUser None = Inl (ForbiddenException ProfiloNonConfigurato) \<and>
           resolveMemberId exStore exUser None = Inr ''m1'' \<and>
           resolveMemberId (exStore\<lparr>tables := []\<rparr>) exUser None = Inr ''m1'' \<and>
           resolveMemberId ?inactive exUser None = Inr ''m1'' \<and>
           resolveMemberId exBooked exUser None = Inr ''m1''"
    by (simp add: example_defs resolveMemberId_def)
  have t: "find (\<lambda>t. t_id t = ''t1'') (tables exStore) = Some exTable \<and>
           find (\<lambda>t. t_id t = ''t1'') (tables exBooked) = Some exTable \<and>
           find (\<lambda>t. t_id t = ''t1'') (tables (exStore\<lparr>tables := []\<rparr>)) = None \<and>
           find (\<lambda>t. t_id t = ''t1'') (tables ?inactive) = Some (exTable\<lparr>t_isActive := False\<rparr>) \<and>
           t_isActive exTable \<and> t_capacity exTable = 4"
    by (simp add: example_defs)
  have q: "int (length (filter (\<lambda>bk. memberId bk = ''m1'' \<and> startAt bk > 0 \<and>
                                   status bk \<in> {PENDING, CONFIRMED}) (bookings exBooked))) \<ge> 1"
    by (simp add: example_defs)
  have 1: "create defaultConfig 0 0 ''b1'' exUser (exDtoFive\<lparr>dto_endAt := None\<rparr>) exNoProfile
     = (exNoProfile, Inl (BadRequestException DateNonValide))"
    using C8_validation_order [where dto = "exDtoFive\<lparr>dto_endAt := None\<rparr>" and cfg = defaultConfig
        and now = 0 and now' = 0 and newId = "''b1''" and user = exUser] d1
    by blast
  have 2: "create defaultConfig 0 0 ''b1'' exUser (exDtoFive\<lparr>dto_endAt := Some 156600001\<rparr>) exNoProfile
     = (exNoProfile, Inl (BadRequestException (DurataSlot (bookingSlotMinutes defaultConfig))))"
    using C8_validation_order [where dto = "exDtoFive\<lparr>dto_endAt := Some 156600001\<rparr>"
        and cfg = defaultConfig and now = 0 and now' = 0 and newId = "''b1''" and user = exUser
        and a = 151200000 and b = 156600001] d2 r c
    by (simp del: One_nat_def)
  let ?late = "defaultConfig\<lparr>bookingOpenHour := 19\<rparr>"
  have c': "bookingSlotMinutes ?late = 90 \<and> tzOffsetMs ?late = 0 \<and>
           bookingOpenHour ?late = 19 \<and> bookingCloseHour ?late = 23"
    by (simp add: defaultConfig_def)
  have 3: "create ?late 0 0 ''b1'' exUser exDtoFive exNoProfile
     = (exNoProfile, Inl (BadRequestException (FuoriOrario (bookingOpenHour ?late) (bookingCloseHour ?late))))"
    using C8_validation_order [where dto = exDtoFive and cfg = ?late
        and now = 0 and now' = 0 and newId = "''b1''" and user = exUser
        and a = 151200000 and b = 156600000] d r c'
    by simp
  have 4: "create defaultConfig 151200000 0 ''b1'' exUser exDtoFive exNoProfile
     = (exNoProfile, Inl (BadRequestException NonNelFuturo))"
    using C8_validation_order [where dto = exDtoFive and cfg = defaultConfig
        and now = 151200000 and now' = 0 and newId = "''b1''" and user = exUser
        and a = 151200000 and b = 156600000] d r c
    by simp
  have 5: "create defaultConfig 0 0 ''b1'' exUser exDtoFive exNoProfile
     = (exNoProfile, Inl (ForbiddenException ProfiloNonConfigurato))"
    using C8_validation_order [where dto = exDtoFive and cfg = defaultConfig
        and now = 0 and now' = 0 and newId = "''b1''" and user = exUser
        and a = 151200000 and b = 156600000 and s = exNoProfile
        and e = "ForbiddenException ProfiloNonConfigurato"] d r c m
    by simp
  have 6: "create defaultConfig 0 0 ''b1'' exUser exDtoFive (exStore\<lparr>tables := []\<rparr>)
     = (exStore\<lparr>tables := []\<rparr>, Inl (NotFoundException TavoloNonDisponibile))"
    using C8_validation_order [where dto = exDtoFive and cfg = defaultConfig
        and now = 0 and now' = 0 and newId = "''b1''" and user = exUser
        and a = 151200000 and b = 156600000 and s = "exStore\<lparr>tables := []\<rparr>"
        and mid = "''m1''"] d r c m t
    by simp
  have 7: "create defaultConfig 0 0 ''b1'' exUser exDtoFive ?inactive
     = (?inactive, Inl (NotFoundException TavoloNonDisponibile))"
    using C8_validation_order [where dto = exDtoFive and cfg = defaultConfig
        and now = 0 and now' = 0 and newId = "''b1''" and user = exUser
        and a = 151200000 and b = 156600000 and s = ?inactive
        and mid = "''m1''" and tbl = "exTable\<lparr>t_isActive := False\<rparr>"] d r c m t
    by simp
  have 8: "create defaultConfig 0 0 ''b1'' exUser exDtoFive exStore
     = (exStore, Inl (BadRequestException CapienzaSuperata))"
    using C8_validation_order [where dto = exDtoFive and cfg = defaultConfig
        and now = 0 and now' = 0 and newId = "''b1''" and user = exUser
        and a = 151200000 and b = 156600000 and s = exStore
        and mid = "''m1''" and tbl = exTable] d r c m t
    by simp
  let ?one = "defaultConfig\<lparr>maxFutureActiveBookings := 1\<rparr>"
  have c1: "bookingSlotMinutes ?one = 90 \<and> tzOffsetMs ?one = 0 \<and>
           bookingOpenHour ?one = 15 \<and> bookingCloseHour ?one = 23 \<and>
           maxFutureActiveBookings ?one = 1"
    by (simp add: defaultConfig_def)
  have 9: "create ?one 0 0 ''b3'' exUser exDto3 exBooked
     = (exBooked, Inl (BadRequestException (MassimoPrenotazioni (maxFutureActiveBookings ?one))))"
    using C8_validation_order [where dto = exDto3 and cfg = ?one
        and now = 0 and now' = 0 and newId = "''b3''" and user = exUser
        and a = 156600000 and b = 162000000 and s = exBooked
        and mid = "''m1''" and tbl = exTable] d3 r c1 m t q
    by simp
  from 1 2 3 4 5 6 7 8 9 c c' c1 show ?thesis by simp
qed

text \<open>
  The claim that the capacity check is evaluated before any read of the store fails: the
  same request of five people by the same actor is rejected for the capacity in the
  store with the table of four, is rejected for the missing member profile, and not
  for the capacity, in a store that differs only in the members, and is accepted in a
  store that differs only in the capacity of the table.
\<close>

theorem C8_capacity_reads_store_counterexample:
  "dto_peopleCount exDtoFive = 5 \<and>
   create defaultConfig 0 0 ''b1'' exUser exDtoFive exStore
     = (exStore, Inl (BadRequestException CapienzaSuperata)) \<and>
   create defaultConfig 0 0 ''b1'' exUser exDtoFive exNoProfile
     = (exNoProfile, Inl (ForbiddenException ProfiloNonConfigurato)) \<and>
   map t_capacity (tables exNoProfile) = [4] \<and>
   snd (create defaultConfig 0 0 ''b1'' exUser exDtoFive exBigTable)
     = Inr (exBooking\<lparr>peopleCount := 5\<rparr>)"
  using five_on_four five_no_profile five_on_six
  by (simp add: example_defs)

section \<open>The bound on the stock\<close>

text \<open>
  The bound \<open>0 \<le> stockAvailable \<le> stockTotal\<close> is kept by the creation of a booking
  with a valid request, by the creation of a game with a valid request, and by the
  update of a game with a valid request when the identifiers of the games are distinct.
  A cancel keeps the stock from going negative when the held quantities are positive;
  it adds the held quantity with no look at the total.
\<close>

lemma mapSet_subset: "set (mapSet m k v) \<subseteq> insert (k, v) (set m)"
  by (induction m k v rule: mapSet.induct) auto

lemma mapGetOr0_nonneg:
  "list_all (\<lambda>(g, q). 1 \<le> q) m \<Longrightarrow> 0 \<le> mapGetOr0 m k"
  by (auto simp add: mapGetOr0_def list_all_iff split: option.splits dest!: map_of_SomeD)

lemma aggregate_positive_gen:
  "list_all (\<lambda>(g, q). 1 \<le> q) m \<Longrightarrow> list_all (\<lambda>selection. 1 \<le> sel_quantity selection) selections \<Longrightarrow>
   list_all (\<lambda>(g, q). 1 \<le> q)
     (foldl (\<lambda>m selection.
              mapSet m (gameId selection) (mapGetOr0 m (gameId selection) + sel_quantity selection))
           m selections)"
proof (induction selections arbitrary: m)
  case Nil
  then show ?case by simp
next
  case (Cons x xs)
  let ?m' = "mapSet m (gameId x) (mapGetOr0 m (gameId x) + sel_quantity x)"
  from Cons.prems have "0 \<le> mapGetOr0 m (gameId x)" and "1 \<le> sel_quantity x"
    by (simp_all add: mapGetOr0_nonneg)
  then have "1 \<le> mapGetOr0 m (gameId x) + sel_quantity x" by simp
  with Cons.prems(1) mapSet_subset [of m "gameId x" "mapGetOr0 m (gameId x) + sel_quantity x"]
  have "list_all (\<lambda>(g, q). 1 \<le> q) ?m'"
    unfolding list_all_iff by blast
  with Cons show ?case by simp
qed

lemma aggregate_positive:
  "list_all (\<lambda>selection. 1 \<le> sel_quantity selection) selections \<Longrightarrow>
   list_all (\<lambda>(g, q). 1 \<le> q) (aggregate selections)"
  unfolding aggregate_def by (rule aggregate_positive_gen) simp_all

lemma decrementWhereEnough_bound:
  assumes "list_all (\<lambda>(g, q). 1 \<le> q) agg"
    and "0 \<le> stockAvailable g \<and> stockAvailable g \<le> stockTotal g"
  shows "0 \<le> stockAvailable (decrementWhereEnough agg g) \<and>
         stockAvailable (decrementWhereEnough agg g) \<le> stockTotal (decrementWhereEnough agg g)"
  using assms
  by (auto simp add: decrementWhereEnough_def list_all_iff split: option.splits dest!: map_of_SomeD)

lemma create_checks_aggregate:
  "create_checks cfg now now' s user dto = Inr (m, a, b, agg) \<Longrightarrow>
   agg = aggregate (case dto_gameSelections dto of None \<Rightarrow> [] | Some sels \<Rightarrow> sels)"
  by (auto simp add: create_checks_def Let_def split: option.splits if_splits sum.splits)

lemma create_stockBound:
  assumes v: "validCreateBookingDto dto" and inv: "stockBound s"
  shows "stockBound (fst (create cfg now now' newId user dto s))"
proof (cases "create cfg now now' newId user dto s")
  case (Pair s' r)
  show ?thesis
  proof (cases r)
    case (Inl e)
    with Pair have "s' = s" by (auto dest: create_error_unchanged)
    with Pair inv show ?thesis by simp
  next
    case (Inr bk)
    with Pair obtain m a b agg where ch: "create_checks cfg now now' s user dto = Inr (m, a, b, agg)"
      and tx: "create_tx user dto m a b agg newId s = Inr (s', bk)"
      by (auto simp add: create_def transaction_def split: sum.splits prod.splits)
    from create_checks_aggregate [OF ch]
    have agg: "agg = aggregate (case dto_gameSelections dto of None \<Rightarrow> [] | Some sels \<Rightarrow> sels)" .
    from v have "list_all (\<lambda>selection. 1 \<le> sel_quantity selection)
                   (case dto_gameSelections dto of None \<Rightarrow> [] | Some sels \<Rightarrow> sels)"
      by (simp add: validCreateBookingDto_def split: option.splits)
    from aggregate_positive [OF this] agg have pos: "list_all (\<lambda>(g, q). 1 \<le> q) agg" by simp
    from agg have d: "distinct (map fst agg)" by (simp add: aggregate_distinct)
    from create_tx_stock_success [OF d tx]
    have g: "boardGames s' = map (decrementWhereEnough agg) (boardGames s)" by simp
    have "stockBound s'"
      using inv decrementWhereEnough_bound [OF pos]
      unfolding stockBound_def g list_all_iff by auto
    with Pair show ?thesis by simp
  qed
qed

lemma games_create_stockBound:
  "validCreateGameDto dto \<Longrightarrow> stockBound s \<Longrightarrow> stockBound (fst (games_create newId dto s))"
  by (simp add: games_create_def validCreateGameDto_def stockBound_def Let_def)

lemma find_distinct_id:
  "distinct (map g_id gs) \<Longrightarrow> find (\<lambda>g. g_id g = k) gs = Some x \<Longrightarrow> y \<in> set gs \<Longrightarrow> g_id y = k
   \<Longrightarrow> y = x"
proof -
  assume d: "distinct (map g_id gs)" and f: "find (\<lambda>g. g_id g = k) gs = Some x"
    and y: "y \<in> set gs" "g_id y = k"
  from f have "x \<in> set gs" and "g_id x = k"
    by (auto simp add: find_Some_iff)
  with d y show "y = x"
    by (auto simp add: distinct_map dest: inj_onD)
qed

lemma games_update_stockBound:
  assumes v: "validUpdateGameDto dto" and inv: "stockBound s"
    and d: "distinct (map g_id (boardGames s))"
  shows "stockBound (fst (games_update k dto s))"
proof (cases "find (\<lambda>g. g_id g = k) (boardGames s)")
  case None
  with inv show ?thesis by (simp add: games_update_def)
next
  case (Some existing)
  have ex: "existing \<in> set (boardGames s)"
    using Some by (auto simp add: find_Some_iff)
  show ?thesis
  proof (cases "snd (games_update k dto s)")
    case (Inl e)
    with Some inv show ?thesis
      by (auto simp add: games_update_def Let_def split: if_splits)
  next
    case (Inr g')
    with Some have ok: "\<not> (case ug_stockAvailable dto of None \<Rightarrow> stockAvailable existing | Some v \<Rightarrow> v)
                     > (case ug_stockTotal dto of None \<Rightarrow> stockTotal existing | Some v \<Rightarrow> v)"
      and st: "boardGames (fst (games_update k dto s)) =
                 map (\<lambda>g. if g_id g = k then applyUpdateGameDto dto g else g) (boardGames s)"
      by (auto simp add: games_update_def Let_def split: if_splits)
    have b: "0 \<le> stockAvailable (applyUpdateGameDto dto existing) \<and>
             stockAvailable (applyUpdateGameDto dto existing) \<le> stockTotal (applyUpdateGameDto dto existing)"
      using ok v inv ex
      by (auto simp add: applyUpdateGameDto_def validUpdateGameDto_def stockBound_def list_all_iff
          split: option.splits)
    show ?thesis
      unfolding stockBound_def st list_all_iff
    proof
      fix x assume "x \<in> set (map (\<lambda>g. if g_id g = k then applyUpdateGameDto dto g else g) (boardGames s))"
      then obtain y where y: "y \<in> set (boardGames s)"
        and x: "x = (if g_id y = k then applyUpdateGameDto dto y else y)" by auto
      show "0 \<le> stockAvailable x \<and> stockAvailable x \<le> stockTotal x"
      proof (cases "g_id y = k")
        case True
        from find_distinct_id [OF d Some y True] x True b show ?thesis by simp
      next
        case False
        with x y inv show ?thesis by (auto simp add: stockBound_def list_all_iff)
      qed
    qed
  qed
qed

lemma cancel_stock_nonneg:
  assumes "list_all (\<lambda>g. 0 \<le> stockAvailable g) (boardGames s)"
    and "list_all (\<lambda>h. 1 \<le> quantity h) (bookingGames s)"
  shows "list_all (\<lambda>g. 0 \<le> stockAvailable g) (boardGames (fst (cancel cfg now user k s)))"
proof (cases "cancel cfg now user k s")
  case (Pair s' r)
  show ?thesis
  proof (cases r)
    case (Inl e)
    with Pair have "s' = s" by (auto dest: cancel_error_unchanged)
    with Pair assms show ?thesis by simp
  next
    case (Inr x)
    with Pair have c: "cancel cfg now user k s = (s', Inr x)" by simp
    have "0 \<le> heldQuantity s k g" for g
      unfolding heldQuantity_def using assms(2)
      by (intro sum_list_nonneg) (auto simp add: list_all_iff)
    with assms(1) have "list_all (\<lambda>g. 0 \<le> stockAvailable g) (boardGames s')"
      unfolding cancel_success(7) [OF c] list_all_iff by auto
    with Pair show ?thesis by simp
  qed
qed

text \<open>
  C2 (stock bound), evaluated on the code. One copy of a game, available; a member books
  a table with that copy (available 0 of 1); the staff sets the total stock of the game to
  zero, which the update accepts since 0 does not exceed 0; the member cancels the
  booking. The cancel adds the held copy back: the game now has 1 available of 0 in
  total, and the bound is broken.
\<close>

theorem C2_stock_bound_broken_by_cancel:
  "validCreateBookingDto exDto \<and> validUpdateGameDto exShrink \<and>
   map stockAvailable (boardGames exStore) = [1] \<and> map stockTotal (boardGames exStore) = [1] \<and>
   create defaultConfig 0 0 ''b1'' exUser exDto exStore = (exBooked, Inr exBooking) \<and>
   games_update ''g1'' exShrink exBooked
     = (exBooked\<lparr>boardGames := [exGame\<lparr>stockTotal := 0, stockAvailable := 0\<rparr>]\<rparr>,
        Inr (exGame\<lparr>stockTotal := 0, stockAvailable := 0\<rparr>)) \<and>
   cancel defaultConfig 0 exUser ''b1''
       (exBooked\<lparr>boardGames := [exGame\<lparr>stockTotal := 0, stockAvailable := 0\<rparr>]\<rparr>)
     = (exOverstock, Inr (''b1'', CANCELLED)) \<and>
   run defaultConfig exStore
       [BookingCreate 0 0 ''b1'' exUser exDto, GameUpdate ''g1'' exShrink,
        BookingCancel 0 exUser ''b1'']
     = exOverstock \<and>
   map stockAvailable (boardGames exOverstock) = [1] \<and>
   map stockTotal (boardGames exOverstock) = [0] \<and>
   \<not> stockBound exOverstock"
proof -
  have c: "create defaultConfig 0 0 ''b1'' exUser exDto exStore = (exBooked, Inr exBooking)"
    by (rule create_example)
  have u: "games_update ''g1'' exShrink exBooked
     = (exBooked\<lparr>boardGames := [exGame\<lparr>stockTotal := 0, stockAvailable := 0\<rparr>]\<rparr>,
        Inr (exGame\<lparr>stockTotal := 0, stockAvailable := 0\<rparr>))"
    by (simp add: example_defs games_update_def applyUpdateGameDto_def)
  have x: "cancel defaultConfig 0 exUser ''b1''
       (exBooked\<lparr>boardGames := [exGame\<lparr>stockTotal := 0, stockAvailable := 0\<rparr>]\<rparr>)
     = (exOverstock, Inr (''b1'', CANCELLED))"
    by (simp add: example_defs cancel_def transaction_def cancel_tx_def inInt4_def Let_def)
  have v: "validCreateBookingDto exDto \<and> validUpdateGameDto exShrink"
    by (simp add: example_defs validCreateBookingDto_def validUpdateGameDto_def)
  have r: "run defaultConfig exStore
       [BookingCreate 0 0 ''b1'' exUser exDto, GameUpdate ''g1'' exShrink,
        BookingCancel 0 exUser ''b1'']
     = exOverstock"
    using c u x v by (simp add: run_def)
  have w: "map stockAvailable (boardGames exStore) = [1] \<and> map stockTotal (boardGames exStore) = [1] \<and>
      map stockAvailable (boardGames exOverstock) = [1] \<and>
      map stockTotal (boardGames exOverstock) = [0] \<and> \<not> stockBound exOverstock"
    by (simp add: example_defs stockBound_def)
  from c u x v r w show ?thesis by simp
qed

end
